theory Spec2Isabelle
  imports Main
begin

section \<open>Data model (api/v1/server\_types.go)\<close>

text \<open>
  The Go types \<open>PowerState\<close>, \<open>ControlType\<close> and \<open>CurrentStatus\<close> are named string
  types, so any string can occur in a record, the empty string being the unset value.
  Optional sub-structures (\<open>*IPMISpecs\<close>, \<open>*WOLSpecs\<close>, \<open>*metav1.Time\<close>) are options.
  A timestamp is a number of seconds. \<open>FailureCount\<close> is a Go \<open>int\<close>; the only arithmetic
  on it is the increment of \<open>recordFailure\<close>, which \<open>Reconcile\<close> reaches only below
  the threshold of 3, so it never wraps and is modelled by \<open>int\<close>.
\<close>

type_synonym PowerState = string
type_synonym ControlType = string
type_synonym CurrentStatus = string

definition PowerStateOn :: PowerState where "PowerStateOn = ''on''"
definition PowerStateOff :: PowerState where "PowerStateOff = ''off''"

definition ControlTypeWOL :: ControlType where "ControlTypeWOL = ''wol''"
definition ControlTypeIPMI :: ControlType where "ControlTypeIPMI = ''ipmi''"

definition StatusPending :: CurrentStatus where "StatusPending = ''pending''"
definition StatusActive :: CurrentStatus where "StatusActive = ''active''"
definition StatusOffline :: CurrentStatus where "StatusOffline = ''offline''"
definition StatusDraining :: CurrentStatus where "StatusDraining = ''draining''"
definition StatusFailed :: CurrentStatus where "StatusFailed = ''failed''"

record IPMISpecs =
  IPMI_Address :: string
  Username :: string
  Password :: string

record WOLSpecs =
  WOL_Address :: string
  MACAddress :: string
  Port :: int
  User :: string

record ControlSpecs =
  IPMI :: "IPMISpecs option"
  WOL :: "WOLSpecs option"

record ServerSpec =
  PowerState :: PowerState
  Type :: ControlType
  Control :: ControlSpecs

text \<open>The field \<open>ServerStatus.Status\<close> is \<open>Status'\<close> here; \<open>Status\<close> is the field of \<open>Server\<close>.\<close>

record ServerStatus =
  Status' :: CurrentStatus
  Message :: string
  FailingSince :: "nat option"
  FailureCount :: int

record Server =
  Name :: string
  Spec :: ServerSpec
  Status :: ServerStatus

section \<open>The record store and the trace of calls\<close>

text \<open>
  \<open>client.Client\<close> is the Kubernetes API, outside the repository. It is modelled as the
  list of stored records, in the order \<open>List\<close> returns them, keyed by name. The resource
  has a status subresource (\<open>+kubebuilder:subresource:status\<close>), so \<open>Update\<close> persists the
  spec of the object it is given and \<open>Status().Update\<close> persists its status. A request for
  a name that is not stored fails with \<open>NotFound\<close>. Calls are sequential: no other writer
  acts between the read and the write of one call, so no version conflict arises. The
  object that a write sends back is not read into the caller's copy; it could differ from
  that copy only in a desired power state stored unset, which the enumeration of the
  schema (\<open>+kubebuilder:validation:Enum=on;off\<close>) excludes, and none of the properties
  below depends on it.

  Every write request and every call of a power or probe capability is appended to the
  trace \<open>events\<close>, so that "no store write" and "no power call" are statements about
  the trace.
\<close>

datatype store_error = NotFound | StoreFailure string

datatype effect =
    IsReachableCall string
  | WakeCall string int
  | ShutdownCall string string
  | PowerOnCall string string string
  | PowerOffCall string string string
  | UpdateCall Server
  | StatusUpdateCall Server

record world =
  servers :: "Server list"
  events :: "effect list"

definition emit :: "effect \<Rightarrow> world \<Rightarrow> world" where
  "emit e w = w\<lparr>events := events w @ [e]\<rparr>"

definition Get :: "world \<Rightarrow> string \<Rightarrow> store_error + Server" where
  "Get w name =
     (case find (\<lambda>s. Name s = name) (servers w) of
        None \<Rightarrow> Inl NotFound
      | Some s \<Rightarrow> Inr s)"

definition List :: "world \<Rightarrow> store_error + Server list" where
  "List w = Inr (servers w)"

definition Update :: "world \<Rightarrow> Server \<Rightarrow> world \<times> store_error option" where
  "Update w obj =
     (if Name obj \<in> Name ` set (servers w)
      then ((emit (UpdateCall obj) w)
              \<lparr>servers := map (\<lambda>s. if Name s = Name obj then s\<lparr>Spec := Spec obj\<rparr> else s) (servers w)\<rparr>,
            None)
      else (emit (UpdateCall obj) w, Some NotFound))"

definition StatusUpdate :: "world \<Rightarrow> Server \<Rightarrow> world \<times> store_error option" where
  "StatusUpdate w obj =
     (if Name obj \<in> Name ` set (servers w)
      then ((emit (StatusUpdateCall obj) w)
              \<lparr>servers := map (\<lambda>s. if Name s = Name obj then s\<lparr>Status := Status obj\<rparr> else s) (servers w)\<rparr>,
            None)
      else (emit (StatusUpdateCall obj) w, Some NotFound))"

definition IgnoreNotFound :: "store_error \<Rightarrow> string option" where
  "IgnoreNotFound err = (case err of NotFound \<Rightarrow> None | StoreFailure m \<Rightarrow> Some m)"

section \<open>Reconciliation engine (internal/controller/server\_controller.go)\<close>

text \<open>
  The capabilities held by \<open>ServerReconciler\<close> (interfaces \<open>WolSender\<close>, \<open>SSHClient\<close>,
  \<open>IPMIClient\<close>, \<open>Pinger\<close> of internal/power) are the functions of this record; an error
  is its message, \<open>None\<close> is \<open>nil\<close>.
\<close>

record ServerReconciler =
  Wake :: "string \<Rightarrow> int \<Rightarrow> string option"
  Shutdown :: "string \<Rightarrow> string \<Rightarrow> string option"
  PowerOn :: "string \<Rightarrow> string \<Rightarrow> string \<Rightarrow> string option"
  PowerOff :: "string \<Rightarrow> string \<Rightarrow> string \<Rightarrow> string option"
  IsReachable :: "string \<Rightarrow> bool"

text \<open>\<open>ctrl.Result\<close>: the requeue delay in seconds, 0 for none.\<close>

record Result =
  RequeueAfter :: nat

definition powerOn :: "ServerReconciler \<Rightarrow> Server \<Rightarrow> world \<Rightarrow> world \<times> string option" where
  "powerOn r server w =
     (if Type (Spec server) = ControlTypeWOL then
        (case WOL (Control (Spec server)) of
           None \<Rightarrow> (w, Some ''WOL config is required'')
         | Some wol \<Rightarrow>
             if MACAddress wol = '''' then (w, Some ''WOL MAC address is required'')
             else (emit (WakeCall (MACAddress wol) (Port wol)) w,
                   Wake r (MACAddress wol) (Port wol)))
      else if Type (Spec server) = ControlTypeIPMI then
        (case IPMI (Control (Spec server)) of
           None \<Rightarrow> (w, Some ''IPMI config is required'')
         | Some ipmi \<Rightarrow>
             if IPMI_Address ipmi = '''' then (w, Some ''IPMI address is required'')
             else if Username ipmi = '''' \<or> Password ipmi = ''''
             then (w, Some ''IPMI username and password are required'')
             else (emit (PowerOnCall (IPMI_Address ipmi) (Username ipmi) (Password ipmi)) w,
                   PowerOn r (IPMI_Address ipmi) (Username ipmi) (Password ipmi)))
      else (w, Some (''unknown control type: '' @ Type (Spec server))))"

definition getServerAddress :: "Server \<Rightarrow> string" where
  "getServerAddress server =
     (if Type (Spec server) = ControlTypeWOL then
        (case WOL (Control (Spec server)) of Some wol \<Rightarrow> WOL_Address wol | None \<Rightarrow> '''')
      else if Type (Spec server) = ControlTypeIPMI then
        (case IPMI (Control (Spec server)) of Some ipmi \<Rightarrow> IPMI_Address ipmi | None \<Rightarrow> '''')
      else '''')"

definition powerOff :: "ServerReconciler \<Rightarrow> Server \<Rightarrow> world \<Rightarrow> world \<times> string option" where
  "powerOff r server w =
     (if Type (Spec server) = ControlTypeWOL then
        (case WOL (Control (Spec server)) of
           None \<Rightarrow> (w, Some ''WOL config is required'')
         | Some wol \<Rightarrow>
             if WOL_Address wol = '''' then (w, Some ''WOL address is required'')
             else (emit (ShutdownCall (WOL_Address wol) (User wol)) w,
                   Shutdown r (WOL_Address wol) (User wol)))
      else if Type (Spec server) = ControlTypeIPMI then
        (case IPMI (Control (Spec server)) of
           None \<Rightarrow> (w, Some ''IPMI config is required'')
         | Some ipmi \<Rightarrow>
             if IPMI_Address ipmi = '''' then (w, Some ''IPMI address is required'')
             else if Username ipmi = '''' \<or> Password ipmi = ''''
             then (w, Some ''IPMI username and password are required'')
             else (emit (PowerOffCall (IPMI_Address ipmi) (Username ipmi) (Password ipmi)) w,
                   PowerOff r (IPMI_Address ipmi) (Username ipmi) (Password ipmi)))
      else (w, Some (''unknown control type: '' @ Type (Spec server))))"

definition clearFailure :: "Server \<Rightarrow> CurrentStatus \<Rightarrow> Server" where
  "clearFailure server newStatus =
     server\<lparr>Status := (Status server)
       \<lparr>Status' := newStatus, Message := '''', FailingSince := None, FailureCount := 0\<rparr>\<rparr>"

text \<open>\<open>now\<close> is the value of \<open>metav1.Now()\<close>.\<close>

definition recordFailure :: "nat \<Rightarrow> Server \<Rightarrow> Server" where
  "recordFailure now server =
     (let server = (if FailingSince (Status server) = None
                    then server\<lparr>Status := (Status server)\<lparr>FailingSince := Some now\<rparr>\<rparr>
                    else server)
      in server\<lparr>Status := (Status server)\<lparr>FailureCount := FailureCount (Status server) + 1\<rparr>\<rparr>)"

text \<open>\<open>Reconcile\<close>, lines 135 to 138: an unset desired power state is read as off.\<close>

definition defaultPowerState :: "Server \<Rightarrow> Server" where
  "defaultPowerState server =
     (if PowerState (Spec server) = ''''
      then server\<lparr>Spec := (Spec server)\<lparr>PowerState := PowerStateOff\<rparr>\<rparr>
      else server)"

definition setStatus :: "CurrentStatus \<Rightarrow> Server \<Rightarrow> Server" where
  "setStatus st server = server\<lparr>Status := (Status server)\<lparr>Status' := st\<rparr>\<rparr>"

definition setMessage :: "string \<Rightarrow> Server \<Rightarrow> Server" where
  "setMessage m server = server\<lparr>Status := (Status server)\<lparr>Message := m\<rparr>\<rparr>"

text \<open>
  \<open>Reconcile\<close>, lines 207 to 243: the current power state derived from the status, the
  comparison with the desired state, and the power action. \<open>server\<close> is the local copy of
  the record and \<open>w\<close> the world after the writes made so far. The result of every
  \<open>r.Status().Update\<close> is dropped, as in the source.
\<close>

definition Reconcile_action ::
  "ServerReconciler \<Rightarrow> world \<Rightarrow> Server \<Rightarrow> world \<times> Result \<times> string option" where
  "Reconcile_action r w server =
     (let currentState = (if Status' (Status server) = StatusActive
                          then PowerStateOn else PowerStateOff)
      in if PowerState (Spec server) = currentState then (w, \<lparr>RequeueAfter = 0\<rparr>, None)
         else
           let action = (if PowerState (Spec server) = PowerStateOn
                         then Some (powerOn r server w, StatusPending)
                         else if PowerState (Spec server) = PowerStateOff
                         then Some (powerOff r server w, StatusDraining)
                         else None)
           in (case action of
                 None \<Rightarrow> (w, \<lparr>RequeueAfter = 0\<rparr>, None)
               | Some ((w, Some e), newStatus) \<Rightarrow>
                   (fst (StatusUpdate w
                      (setMessage (''Power action failed: '' @ e) (setStatus StatusFailed server))),
                    \<lparr>RequeueAfter = 0\<rparr>, Some e)
               | Some ((w, None), newStatus) \<Rightarrow>
                   (fst (StatusUpdate w (setMessage '''' (setStatus newStatus server))),
                    \<lparr>RequeueAfter = 60\<rparr>, None)))"

text \<open>\<open>Reconcile\<close>, lines 127 to 205, continued by \<open>Reconcile_action\<close>.\<close>

definition Reconcile ::
  "ServerReconciler \<Rightarrow> nat \<Rightarrow> world \<Rightarrow> string \<Rightarrow> world \<times> Result \<times> string option" where
  "Reconcile r now w name =
     (case Get w name of
        Inl err \<Rightarrow> (w, \<lparr>RequeueAfter = 0\<rparr>, IgnoreNotFound err)
      | Inr fetched \<Rightarrow>
          let server = defaultPowerState fetched
          in if Status' (Status server) = StatusFailed then (w, \<lparr>RequeueAfter = 0\<rparr>, None)
             else if FailureCount (Status server) \<ge> 3 then
               (fst (StatusUpdate w (setStatus StatusFailed server)), \<lparr>RequeueAfter = 0\<rparr>, None)
             else
               let address = getServerAddress server
               in if address = '''' then
                    (fst (StatusUpdate w
                       (setMessage ''No address configured for server''
                          (setStatus StatusFailed server))),
                     \<lparr>RequeueAfter = 0\<rparr>,
                     Some (''no address configured for server '' @ Name server))
                  else
                    let w = emit (IsReachableCall address) w;
                        reachable = IsReachable r address
                    in if Status' (Status server) = StatusPending then
                         let server = (if reachable then clearFailure server StatusActive
                                       else recordFailure now server);
                             w = fst (StatusUpdate w server)
                         in if reachable then (w, \<lparr>RequeueAfter = 0\<rparr>, None)
                            else (w, \<lparr>RequeueAfter = 60\<rparr>, None)
                       else if Status' (Status server) = StatusDraining then
                         let server = (if \<not> reachable then clearFailure server StatusOffline
                                       else recordFailure now server);
                             w = fst (StatusUpdate w server)
                         in if \<not> reachable then (w, \<lparr>RequeueAfter = 0\<rparr>, None)
                            else (w, \<lparr>RequeueAfter = 60\<rparr>, None)
                       else if Status' (Status server) = StatusActive then
                         (if \<not> reachable
                          then let server = setStatus StatusOffline server
                               in Reconcile_action r (fst (StatusUpdate w server)) server
                          else Reconcile_action r w server)
                       else if Status' (Status server) = StatusOffline
                               \<or> Status' (Status server) = '''' then
                         let server = (if reachable then setStatus StatusActive server
                                       else setStatus StatusOffline server)
                         in Reconcile_action r (fst (StatusUpdate w server)) server
                       else Reconcile_action r w server)"

section \<open>Fleet protocol adapter (external/baremetalprovider.go)\<close>

definition defaultNodeGroupID :: string where
  "defaultNodeGroupID = ''bare-metal-pool''"

datatype rpc_error =
    UnknownNodeGroup string
  | FailedToList store_error
  | FailedToPowerOn string store_error
  | FailedToPowerOff string store_error
  | FailedToGet string store_error
  | NotEnoughServers int int

definition desire :: "PowerState \<Rightarrow> Server \<Rightarrow> Server" where
  "desire p server = server\<lparr>Spec := (Spec server)\<lparr>PowerState := p\<rparr>\<rparr>"

text \<open>The loop of \<open>NodeGroupIncreaseSize\<close> over the listed items, with its counter.\<close>

fun NodeGroupIncreaseSize_loop ::
  "world \<Rightarrow> int \<Rightarrow> int \<Rightarrow> Server list \<Rightarrow> world \<times> (rpc_error + int)" where
  "NodeGroupIncreaseSize_loop w delta provisioned [] = (w, Inr provisioned)"
| "NodeGroupIncreaseSize_loop w delta provisioned (server # items) =
     (if provisioned \<ge> delta then (w, Inr provisioned)
      else if PowerState (Spec server) = PowerStateOff then
        (case Update w (desire PowerStateOn server) of
           (w', Some err) \<Rightarrow> (w', Inl (FailedToPowerOn (Name server) err))
         | (w', None) \<Rightarrow> NodeGroupIncreaseSize_loop w' delta (provisioned + 1) items)
      else NodeGroupIncreaseSize_loop w delta provisioned items)"

definition NodeGroupIncreaseSize :: "world \<Rightarrow> string \<Rightarrow> int \<Rightarrow> world \<times> (rpc_error + unit)" where
  "NodeGroupIncreaseSize w nodeGroupID delta =
     (if nodeGroupID \<noteq> defaultNodeGroupID then (w, Inl (UnknownNodeGroup nodeGroupID))
      else if delta \<le> 0 then (w, Inr ())
      else (case List w of
              Inl err \<Rightarrow> (w, Inl (FailedToList err))
            | Inr items \<Rightarrow>
                (case NodeGroupIncreaseSize_loop w delta 0 items of
                   (w', Inl err) \<Rightarrow> (w', Inl err)
                 | (w', Inr provisioned) \<Rightarrow>
                     if provisioned < delta
                     then (w', Inl (NotEnoughServers delta provisioned))
                     else (w', Inr ()))))"

text \<open>The loop of \<open>NodeGroupDeleteNodes\<close> over the names of the requested nodes.\<close>

fun NodeGroupDeleteNodes_loop :: "world \<Rightarrow> string list \<Rightarrow> world \<times> rpc_error option" where
  "NodeGroupDeleteNodes_loop w [] = (w, None)"
| "NodeGroupDeleteNodes_loop w (node # nodes) =
     (case Get w node of
        Inl err \<Rightarrow> (w, Some (FailedToGet node err))
      | Inr server \<Rightarrow>
          (case Update w (desire PowerStateOff server) of
             (w', Some err) \<Rightarrow> (w', Some (FailedToPowerOff (Name server) err))
           | (w', None) \<Rightarrow> NodeGroupDeleteNodes_loop w' nodes))"

definition NodeGroupDeleteNodes ::
  "world \<Rightarrow> string \<Rightarrow> string list \<Rightarrow> world \<times> (rpc_error + unit)" where
  "NodeGroupDeleteNodes w nodeGroupID nodes =
     (if nodeGroupID \<noteq> defaultNodeGroupID then (w, Inl (UnknownNodeGroup nodeGroupID))
      else (case NodeGroupDeleteNodes_loop w nodes of
              (w', Some err) \<Rightarrow> (w', Inl err)
            | (w', None) \<Rightarrow> (w', Inr ())))"

text \<open>The loop of \<open>NodeGroupDecreaseTargetSize\<close>, with its counter \<open>powered_off\<close>.\<close>

fun NodeGroupDecreaseTargetSize_loop ::
  "world \<Rightarrow> int \<Rightarrow> int \<Rightarrow> Server list \<Rightarrow> world \<times> (rpc_error + int)" where
  "NodeGroupDecreaseTargetSize_loop w delta powered_off [] = (w, Inr powered_off)"
| "NodeGroupDecreaseTargetSize_loop w delta powered_off (server # items) =
     (if powered_off \<ge> delta then (w, Inr powered_off)
      else if PowerState (Spec server) = PowerStateOn then
        (case Update w (desire PowerStateOff server) of
           (w', Some err) \<Rightarrow> (w', Inl (FailedToPowerOff (Name server) err))
         | (w', None) \<Rightarrow> NodeGroupDecreaseTargetSize_loop w' delta (powered_off + 1) items)
      else NodeGroupDecreaseTargetSize_loop w delta powered_off items)"

definition NodeGroupDecreaseTargetSize ::
  "world \<Rightarrow> string \<Rightarrow> int \<Rightarrow> world \<times> (rpc_error + unit)" where
  "NodeGroupDecreaseTargetSize w nodeGroupID delta =
     (if nodeGroupID \<noteq> defaultNodeGroupID then (w, Inl (UnknownNodeGroup nodeGroupID))
      else if delta \<le> 0 then (w, Inr ())
      else (case List w of
              Inl err \<Rightarrow> (w, Inl (FailedToList err))
            | Inr items \<Rightarrow>
                (case NodeGroupDecreaseTargetSize_loop w delta 0 items of
                   (w', Inl err) \<Rightarrow> (w', Inl err)
                 | (w', Inr powered_off) \<Rightarrow> (w', Inr ()))))"

text \<open>
  A sequence of invocations of \<open>Reconcile\<close> for one machine, each with the capabilities
  and the clock of its moment; the scheduler's requeue is outside the engine.
\<close>

fun Reconcile_run :: "(ServerReconciler \<times> nat) list \<Rightarrow> world \<Rightarrow> string \<Rightarrow> world" where
  "Reconcile_run [] w name = w"
| "Reconcile_run ((r, now) # rs) w name = Reconcile_run rs (fst (Reconcile r now w name)) name"

text \<open>
  The selection as the specification words it ("selects up to delta records currently
  off, sets them on"): going through the records in the order of the list, the first \<open>n\<close>
  whose desired power state is \<open>a\<close> get the desired power state \<open>b\<close>. \<open>wants p\<close> counts
  the records whose desired power state is \<open>p\<close>.
\<close>

fun flipFirst :: "nat \<Rightarrow> PowerState \<Rightarrow> PowerState \<Rightarrow> Server list \<Rightarrow> Server list" where
  "flipFirst 0 a b xs = xs"
| "flipFirst (Suc n) a b [] = []"
| "flipFirst (Suc n) a b (x # xs) =
     (if PowerState (Spec x) = a then desire b x # flipFirst n a b xs
      else x # flipFirst (Suc n) a b xs)"

definition wants :: "PowerState \<Rightarrow> Server list \<Rightarrow> nat" where
  "wants p xs = length (filter (\<lambda>x. PowerState (Spec x) = p) xs)"

text \<open>The calls of the trace that reach a power capability.\<close>

definition isPowerCall :: "effect \<Rightarrow> bool" where
  "isPowerCall e =
     (case e of WakeCall mac port \<Rightarrow> True | ShutdownCall host user \<Rightarrow> True
      | PowerOnCall a u p \<Rightarrow> True | PowerOffCall a u p \<Rightarrow> True | _ \<Rightarrow> False)"

text \<open>
  The write requests of the trace, by kind, and the two parts of a record that the
  engine and the adapter respectively leave alone: everything but the status, and
  everything but the desired power state.
\<close>

definition isUpdateCall :: "effect \<Rightarrow> bool" where
  "isUpdateCall e = (case e of UpdateCall obj \<Rightarrow> True | _ \<Rightarrow> False)"

definition isStatusUpdateCall :: "effect \<Rightarrow> bool" where
  "isStatusUpdateCall e = (case e of StatusUpdateCall obj \<Rightarrow> True | _ \<Rightarrow> False)"

definition outsideStatus :: "Server \<Rightarrow> string \<times> ServerSpec" where
  "outsideStatus s = (Name s, Spec s)"

definition outsidePowerState :: "Server \<Rightarrow> string \<times> ControlType \<times> ControlSpecs \<times> ServerStatus" where
  "outsidePowerState s = (Name s, Type (Spec s), Control (Spec s), Status s)"

section \<open>Concrete records\<close>

text \<open>
  A Wake-on-LAN machine as the test suite creates it (\<open>createWolServer\<close>), with a given
  name, desired power state and status, and capabilities that succeed, with a probe that
  answers \<open>b\<close>.
\<close>

definition wolServer :: "string \<Rightarrow> PowerState \<Rightarrow> ServerStatus \<Rightarrow> Server" where
  "wolServer n p st =
     \<lparr>Name = n,
      Spec = \<lparr>PowerState = p, Type = ControlTypeWOL,
              Control = \<lparr>IPMI = None,
                         WOL = Some \<lparr>WOL_Address = ''192.168.1.100'',
                                     MACAddress = ''00:11:22:33:44:55'',
                                     Port = 9, User = ''admin''\<rparr>\<rparr>\<rparr>,
      Status = st\<rparr>"

definition phase :: "CurrentStatus \<Rightarrow> ServerStatus" where
  "phase st = \<lparr>Status' = st, Message = '''', FailingSince = None, FailureCount = 0\<rparr>"

definition mockReconciler :: "bool \<Rightarrow> ServerReconciler" where
  "mockReconciler b =
     \<lparr>Wake = (\<lambda>mac port. None), Shutdown = (\<lambda>host user. None),
      PowerOn = (\<lambda>a u p. None), PowerOff = (\<lambda>a u p. None),
      IsReachable = (\<lambda>a. b)\<rparr>"

text \<open>
  The machine of the test "should fail when type is WoL but WoL specs are nil", and one
  whose Wake-on-LAN parameters lack the MAC address.
\<close>

definition noControl :: "Server \<Rightarrow> Server" where
  "noControl server = server\<lparr>Spec := (Spec server)\<lparr>Control := \<lparr>IPMI = None, WOL = None\<rparr>\<rparr>\<rparr>"

definition noMAC :: "Server \<Rightarrow> Server" where
  "noMAC server =
     server\<lparr>Spec := (Spec server)
       \<lparr>Control := \<lparr>IPMI = None,
                     WOL = Some \<lparr>WOL_Address = ''192.168.1.100'', MACAddress = [],
                                 Port = 9, User = ''admin''\<rparr>\<rparr>\<rparr>\<rparr>"

text \<open>A store of two machines, the first to be on and active, the second to be off and offline.\<close>

definition twoServers :: world where
  "twoServers =
     \<lparr>servers = [wolServer ''a'' PowerStateOn (phase StatusActive),
                 wolServer ''b'' PowerStateOff (phase StatusOffline)],
      events = []\<rparr>"

section \<open>Properties\<close>

lemmas const_defs =
  PowerStateOn_def PowerStateOff_def ControlTypeWOL_def ControlTypeIPMI_def
  StatusPending_def StatusActive_def StatusOffline_def StatusDraining_def StatusFailed_def
  defaultNodeGroupID_def

subsection \<open>The store\<close>

lemma find_map_name:
  assumes "\<And>x. Name (f x) = Name x"
  shows "find (\<lambda>s. Name s = n) (map f xs) = map_option f (find (\<lambda>s. Name s = n) xs)"
  using assms by (induction xs) auto

lemma find_name: "find (\<lambda>s. Name s = n) xs = Some s \<Longrightarrow> Name s = n"
  by (induction xs) (auto split: if_splits)

lemma find_mem: "find P xs = Some s \<Longrightarrow> s \<in> set xs"
  by (induction xs) (auto split: if_splits)

lemma find_None_name: "find (\<lambda>s. Name s = n) xs = None \<longleftrightarrow> n \<notin> Name ` set xs"
  by (induction xs) auto

lemma Get_name: "Get w name = Inr s \<Longrightarrow> Name s = name"
  by (auto simp: Get_def split: option.splits dest: find_name)

lemma Get_mem: "Get w name = Inr s \<Longrightarrow> s \<in> set (servers w)"
  by (auto simp: Get_def split: option.splits dest: find_mem)

lemma Get_emit [simp]: "Get (emit e w) name = Get w name"
  by (simp add: Get_def emit_def)

lemma Get_StatusUpdate:
  "Get (fst (StatusUpdate w obj)) name =
     map_sum id (\<lambda>s. if Name obj = name then s\<lparr>Status := Status obj\<rparr> else s) (Get w name)"
proof (cases "Name obj \<in> Name ` set (servers w)")
  case True
  have h: "find (\<lambda>s. Name s = name) (map (\<lambda>s. if Name s = Name obj then s\<lparr>Status := Status obj\<rparr> else s) (servers w))
        = map_option (\<lambda>s. if Name s = Name obj then s\<lparr>Status := Status obj\<rparr> else s) (find (\<lambda>s. Name s = name) (servers w))"
    by (rule find_map_name) simp
  from True show ?thesis
    by (auto simp: Get_def StatusUpdate_def emit_def h split: option.splits dest: find_name)
next
  case False
  then have "Name obj = name \<Longrightarrow> find (\<lambda>s. Name s = name) (servers w) = None"
    by (simp add: find_None_name)
  with False show ?thesis
    by (auto simp: Get_def StatusUpdate_def emit_def split: option.splits)
qed

lemma Get_powerOn [simp]: "Get (fst (powerOn r s w)) name = Get w name"
  by (simp add: powerOn_def split: option.splits)

lemma Get_powerOff [simp]: "Get (fst (powerOff r s w)) name = Get w name"
  by (simp add: powerOff_def split: option.splits)

lemma defaultPowerState_simps [simp]:
  "Name (defaultPowerState s) = Name s"
  "Status (defaultPowerState s) = Status s"
  "Type (Spec (defaultPowerState s)) = Type (Spec s)"
  "Control (Spec (defaultPowerState s)) = Control (Spec s)"
  "getServerAddress (defaultPowerState s) = getServerAddress s"
  by (simp_all add: defaultPowerState_def getServerAddress_def const_defs)

lemma setStatus_simps [simp]:
  "Name (setStatus st s) = Name s"
  "Spec (setStatus st s) = Spec s"
  "Status' (Status (setStatus st s)) = st"
  "Message (Status (setStatus st s)) = Message (Status s)"
  "FailingSince (Status (setStatus st s)) = FailingSince (Status s)"
  "FailureCount (Status (setStatus st s)) = FailureCount (Status s)"
  by (simp_all add: setStatus_def)

lemma setMessage_simps [simp]:
  "Name (setMessage m s) = Name s"
  "Spec (setMessage m s) = Spec s"
  "Status' (Status (setMessage m s)) = Status' (Status s)"
  "Message (Status (setMessage m s)) = m"
  "FailingSince (Status (setMessage m s)) = FailingSince (Status s)"
  "FailureCount (Status (setMessage m s)) = FailureCount (Status s)"
  by (simp_all add: setMessage_def)

lemma clearFailure_simps [simp]:
  "Name (clearFailure s st) = Name s"
  "Spec (clearFailure s st) = Spec s"
  "Status (clearFailure s st) = (Status s)\<lparr>Status' := st, Message := [], FailingSince := None, FailureCount := 0\<rparr>"
  by (simp_all add: clearFailure_def)

lemma recordFailure_simps [simp]:
  "Name (recordFailure now s) = Name s"
  "Spec (recordFailure now s) = Spec s"
  "Status' (Status (recordFailure now s)) = Status' (Status s)"
  "Message (Status (recordFailure now s)) = Message (Status s)"
  "FailingSince (Status (recordFailure now s)) =
     (case FailingSince (Status s) of None \<Rightarrow> Some now | Some t \<Rightarrow> Some t)"
  "FailureCount (Status (recordFailure now s)) = FailureCount (Status s) + 1"
  by (auto simp: recordFailure_def Let_def)

lemma recordFailure_default [simp]:
  "Status (recordFailure now (defaultPowerState s)) = Status (recordFailure now s)"
  by (simp add: recordFailure_def Let_def)

lemma Reconcile_failed:
  assumes "Get w name = Inr s" and "Status' (Status s) = StatusFailed"
  shows "Reconcile r now w name = (w, \<lparr>RequeueAfter = 0\<rparr>, None)"
  using assms by (simp add: Reconcile_def Let_def)

lemma Reconcile_run_failed:
  assumes "Get w name = Inr s" and "Status' (Status s) = StatusFailed"
  shows "Reconcile_run rs w name = w"
  using assms by (induction rs) (auto simp: Reconcile_failed)

lemma Reconcile_pending_unreachable:
  assumes "Get w name = Inr s" "Status' (Status s) = StatusPending" "FailureCount (Status s) < 3"
    "getServerAddress s \<noteq> []" "\<not> IsReachable r (getServerAddress s)"
  shows "Reconcile r now w name =
           (fst (StatusUpdate (emit (IsReachableCall (getServerAddress s)) w)
                   (recordFailure now (defaultPowerState s))),
            \<lparr>RequeueAfter = 60\<rparr>, None)"
    and "Get (fst (Reconcile r now w name)) name = Inr (s\<lparr>Status := Status (recordFailure now s)\<rparr>)"
  using assms Get_name[OF assms(1)]
  by (simp_all add: Reconcile_def Let_def Get_StatusUpdate const_defs)

lemma Reconcile_threshold:
  assumes "Get w name = Inr s" "Status' (Status s) \<noteq> StatusFailed" "FailureCount (Status s) \<ge> 3"
  shows "Reconcile r now w name =
           (fst (StatusUpdate w (setStatus StatusFailed (defaultPowerState s))), \<lparr>RequeueAfter = 0\<rparr>, None)"
    and "Get (fst (Reconcile r now w name)) name = Inr (s\<lparr>Status := (Status s)\<lparr>Status' := StatusFailed\<rparr>\<rparr>)"
  using assms Get_name[OF assms(1)]
  by (simp_all add: Reconcile_def Let_def Get_StatusUpdate setStatus_def)

lemma Reconcile_run_append:
  "Reconcile_run (xs @ ys) w name = Reconcile_run ys (Reconcile_run xs w name) name"
  by (induction xs arbitrary: w) auto

lemma getServerAddress_Status [simp]: "getServerAddress (s\<lparr>Status := st\<rparr>) = getServerAddress s"
  by (simp add: getServerAddress_def)

text \<open>
  C1. The threshold in the source is the constant 3, tested at the start of an invocation.
  For a pending record with failure count 0 and no failure time, with an address, three
  consecutive invocations with the probe reporting unreachable leave the record pending,
  with failure count 3 and the failure time of the first invocation. The fourth invocation,
  whatever the probe would report, sets the phase to failed and keeps the count; all it adds
  to the trace is the status write of that record, so it makes no probe. Any further
  invocations leave the store and the trace as the fourth left them: failed, with count 3.
\<close>

theorem C1_threshold:
  assumes "Get w name = Inr s"
    and "Status' (Status s) = StatusPending"
    and "FailureCount (Status s) = 0"
    and "FailingSince (Status s) = None"
    and "getServerAddress s \<noteq> []"
    and "\<not> IsReachable r1 (getServerAddress s)"
    and "\<not> IsReachable r2 (getServerAddress s)"
    and "\<not> IsReachable r3 (getServerAddress s)"
  shows "Get (Reconcile_run [(r1, t1), (r2, t2), (r3, t3)] w name) name
           = Inr (s\<lparr>Status := (Status s)\<lparr>FailingSince := Some t1, FailureCount := 3\<rparr>\<rparr>)
         \<and> Get (Reconcile_run ([(r1, t1), (r2, t2), (r3, t3), (r4, t4)] @ rs) w name) name
           = Inr (s\<lparr>Status := (Status s)\<lparr>Status' := StatusFailed, FailingSince := Some t1,
                                          FailureCount := 3\<rparr>\<rparr>)
         \<and> events (Reconcile_run [(r1, t1), (r2, t2), (r3, t3), (r4, t4)] w name)
           = events (Reconcile_run [(r1, t1), (r2, t2), (r3, t3)] w name)
             @ [StatusUpdateCall
                  (setStatus StatusFailed
                     (defaultPowerState
                        (s\<lparr>Status := (Status s)\<lparr>FailingSince := Some t1,
                                                  FailureCount := 3\<rparr>\<rparr>)))]
         \<and> Reconcile_run ([(r1, t1), (r2, t2), (r3, t3), (r4, t4)] @ rs) w name
           = Reconcile_run [(r1, t1), (r2, t2), (r3, t3), (r4, t4)] w name"
proof -
  let ?w1 = "fst (Reconcile r1 t1 w name)"
  let ?w2 = "fst (Reconcile r2 t2 ?w1 name)"
  let ?w3 = "fst (Reconcile r3 t3 ?w2 name)"
  let ?w4 = "fst (Reconcile r4 t4 ?w3 name)"
  let ?s1 = "s\<lparr>Status := (Status s)\<lparr>FailingSince := Some t1, FailureCount := 1\<rparr>\<rparr>"
  let ?s2 = "s\<lparr>Status := (Status s)\<lparr>FailingSince := Some t1, FailureCount := 2\<rparr>\<rparr>"
  let ?s3 = "s\<lparr>Status := (Status s)\<lparr>FailingSince := Some t1, FailureCount := 3\<rparr>\<rparr>"
  let ?s4 = "s\<lparr>Status := (Status s)\<lparr>Status' := StatusFailed, FailingSince := Some t1, FailureCount := 3\<rparr>\<rparr>"
  have g1: "Get ?w1 name = Inr ?s1"
    using Reconcile_pending_unreachable(2) [OF assms(1,2) _ assms(5,6), of t1] assms(3,4)
    by (simp add: recordFailure_def Let_def)
  have g2: "Get ?w2 name = Inr ?s2"
    using Reconcile_pending_unreachable(2) [OF g1, of r2 t2] assms(2,5,7)
    by (simp add: recordFailure_def Let_def)
  have g3: "Get ?w3 name = Inr ?s3"
    using Reconcile_pending_unreachable(2) [OF g2, of r3 t3] assms(2,5,8)
    by (simp add: recordFailure_def Let_def)
  have nf: "Status' (Status ?s3) \<noteq> StatusFailed"
    using assms(2) by (simp add: const_defs)
  have th: "3 \<le> FailureCount (Status ?s3)"
    by simp
  have g4: "Get ?w4 name = Inr ?s4"
    using Reconcile_threshold(2) [OF g3 nf th, of r4 t4]
    by simp
  have e4: "events ?w4
              = events ?w3 @ [StatusUpdateCall (setStatus StatusFailed (defaultPowerState ?s3))]"
    using Reconcile_threshold(1) [OF g3 nf th, of r4 t4]
    by (simp add: StatusUpdate_def emit_def)
  have r: "Reconcile_run rs ?w4 name = ?w4"
    by (rule Reconcile_run_failed [OF g4]) simp
  show ?thesis
    using g3 g4 e4 r by (simp add: Reconcile_run_append)
qed

theorem C1_threshold_witness:
  "Get (Reconcile_run
          [(mockReconciler False, 1), (mockReconciler False, 2), (mockReconciler False, 3)]
          \<lparr>servers = [wolServer ''a'' PowerStateOn (phase StatusPending)], events = []\<rparr> ''a'')
       ''a''
     = Inr ((wolServer ''a'' PowerStateOn (phase StatusPending))
              \<lparr>Status := (Status (wolServer ''a'' PowerStateOn (phase StatusPending)))
                           \<lparr>FailingSince := Some 1, FailureCount := 3\<rparr>\<rparr>)
   \<and> Get (Reconcile_run
            ([(mockReconciler False, 1), (mockReconciler False, 2), (mockReconciler False, 3),
              (mockReconciler True, 4)] @ [(mockReconciler True, 5)])
            \<lparr>servers = [wolServer ''a'' PowerStateOn (phase StatusPending)], events = []\<rparr> ''a'')
         ''a''
     = Inr ((wolServer ''a'' PowerStateOn (phase StatusPending))
              \<lparr>Status := (Status (wolServer ''a'' PowerStateOn (phase StatusPending)))
                           \<lparr>Status' := StatusFailed, FailingSince := Some 1,
                              FailureCount := 3\<rparr>\<rparr>)
   \<and> events (Reconcile_run
            [(mockReconciler False, 1), (mockReconciler False, 2), (mockReconciler False, 3),
             (mockReconciler True, 4)]
            \<lparr>servers = [wolServer ''a'' PowerStateOn (phase StatusPending)], events = []\<rparr> ''a'')
     = events (Reconcile_run
            [(mockReconciler False, 1), (mockReconciler False, 2), (mockReconciler False, 3)]
            \<lparr>servers = [wolServer ''a'' PowerStateOn (phase StatusPending)], events = []\<rparr> ''a'')
       @ [StatusUpdateCall
            (setStatus StatusFailed
               (defaultPowerState
                  ((wolServer ''a'' PowerStateOn (phase StatusPending))
                     \<lparr>Status := (Status (wolServer ''a'' PowerStateOn (phase StatusPending)))
                                  \<lparr>FailingSince := Some 1, FailureCount := 3\<rparr>\<rparr>)))]
   \<and> Reconcile_run
         ([(mockReconciler False, 1), (mockReconciler False, 2), (mockReconciler False, 3),
           (mockReconciler True, 4)] @ [(mockReconciler True, 5)])
         \<lparr>servers = [wolServer ''a'' PowerStateOn (phase StatusPending)], events = []\<rparr> ''a''
     = Reconcile_run
         [(mockReconciler False, 1), (mockReconciler False, 2), (mockReconciler False, 3),
          (mockReconciler True, 4)]
         \<lparr>servers = [wolServer ''a'' PowerStateOn (phase StatusPending)], events = []\<rparr> ''a''"
proof -
  let ?s = "wolServer ''a'' PowerStateOn (phase StatusPending)"
  let ?w = "\<lparr>servers = [?s], events = []\<rparr>"
  have g: "Get ?w ''a'' = Inr ?s"
    by (simp add: Get_def wolServer_def)
  have p: "Status' (Status ?s) = StatusPending"
    by (simp add: wolServer_def phase_def)
  have f: "FailureCount (Status ?s) = 0"
    by (simp add: wolServer_def phase_def)
  have n: "FailingSince (Status ?s) = None"
    by (simp add: wolServer_def phase_def)
  have a: "getServerAddress ?s \<noteq> []"
    by (simp add: getServerAddress_def wolServer_def const_defs)
  have u: "\<not> IsReachable (mockReconciler False) (getServerAddress ?s)"
    by (simp add: mockReconciler_def)
  show ?thesis
    by (rule C1_threshold [OF g p f n a u u u, of 1 2 3 "mockReconciler True" 4
          "[(mockReconciler True, 5)]"])
qed

text \<open>
  After exactly three unreachable invocations the phase of the test suite's pending
  machine is still pending, not failed.
\<close>

theorem C1_threshold_counterexample:
  "Get \<lparr>servers = [wolServer ''a'' PowerStateOn (phase StatusPending)], events = []\<rparr> ''a''
     = Inr (wolServer ''a'' PowerStateOn (phase StatusPending))
   \<and> \<not> IsReachable (mockReconciler False)
          (getServerAddress (wolServer ''a'' PowerStateOn (phase StatusPending)))
   \<and> Get (Reconcile_run
             [(mockReconciler False, 1), (mockReconciler False, 2), (mockReconciler False, 3)]
             \<lparr>servers = [wolServer ''a'' PowerStateOn (phase StatusPending)], events = []\<rparr> ''a'')
          ''a''
       = Inr (wolServer ''a'' PowerStateOn
                \<lparr>Status' = StatusPending, Message = [], FailingSince = Some 1,
                   FailureCount = 3\<rparr>)
   \<and> StatusPending \<noteq> StatusFailed"
  by code_simp

text \<open>
  C2. For a record whose phase is failed, \<open>Reconcile\<close> is a no-op: the world (the store
  and the trace of store writes and capability calls) is unchanged, and it returns success
  with no requeue. The same holds for any sequence of invocations, so the record stays
  failed until something other than the engine changes it.
\<close>

theorem C2_failed_is_noop:
  assumes "Get w name = Inr s" and "Status' (Status s) = StatusFailed"
  shows "Reconcile r now w name = (w, \<lparr>RequeueAfter = 0\<rparr>, None)
         \<and> Reconcile_run rs w name = w"
  using assms by (simp add: Reconcile_failed Reconcile_run_failed)

theorem C2_failed_is_noop_witness:
  "Get \<lparr>servers = [wolServer ''a'' PowerStateOn (phase StatusFailed)], events = []\<rparr> ''a''
     = Inr (wolServer ''a'' PowerStateOn (phase StatusFailed))
   \<and> Status' (Status (wolServer ''a'' PowerStateOn (phase StatusFailed))) = StatusFailed
   \<and> Reconcile (mockReconciler True) 7
        \<lparr>servers = [wolServer ''a'' PowerStateOn (phase StatusFailed)], events = []\<rparr> ''a''
      = (\<lparr>servers = [wolServer ''a'' PowerStateOn (phase StatusFailed)], events = []\<rparr>,
         \<lparr>RequeueAfter = 0\<rparr>, None)
   \<and> Reconcile_run [(mockReconciler True, 7), (mockReconciler False, 8)]
        \<lparr>servers = [wolServer ''a'' PowerStateOn (phase StatusFailed)], events = []\<rparr> ''a''
      = \<lparr>servers = [wolServer ''a'' PowerStateOn (phase StatusFailed)], events = []\<rparr>"
proof -
  have g: "Get \<lparr>servers = [wolServer ''a'' PowerStateOn (phase StatusFailed)], events = []\<rparr> ''a''
             = Inr (wolServer ''a'' PowerStateOn (phase StatusFailed))"
    by (simp add: Get_def wolServer_def)
  have f: "Status' (Status (wolServer ''a'' PowerStateOn (phase StatusFailed))) = StatusFailed"
    by (simp add: wolServer_def phase_def)
  show ?thesis
    using g f C2_failed_is_noop [OF g f, of "mockReconciler True" 7
        "[(mockReconciler True, 7), (mockReconciler False, 8)]"]
    by blast
qed

text \<open>
  C10. \<open>NodeGroupIncreaseSize\<close> and \<open>NodeGroupDecreaseTargetSize\<close> with a delta that is
  not positive, on the known pool, succeed and leave the world unchanged: no record is
  written and no write is requested.
\<close>

theorem C10_nonpositive_delta:
  assumes "delta \<le> 0"
  shows "NodeGroupIncreaseSize w defaultNodeGroupID delta = (w, Inr ())
         \<and> NodeGroupDecreaseTargetSize w defaultNodeGroupID delta = (w, Inr ())"
  using assms by (simp add: NodeGroupIncreaseSize_def NodeGroupDecreaseTargetSize_def)

theorem C10_nonpositive_delta_witness:
  "(- 2 :: int) \<le> 0
   \<and> NodeGroupIncreaseSize
        \<lparr>servers = [wolServer ''a'' PowerStateOff (phase StatusOffline)], events = []\<rparr>
        defaultNodeGroupID (- 2)
      = (\<lparr>servers = [wolServer ''a'' PowerStateOff (phase StatusOffline)], events = []\<rparr>, Inr ())
   \<and> NodeGroupDecreaseTargetSize
        \<lparr>servers = [wolServer ''a'' PowerStateOff (phase StatusOffline)], events = []\<rparr>
        defaultNodeGroupID (- 2)
      = (\<lparr>servers = [wolServer ''a'' PowerStateOff (phase StatusOffline)], events = []\<rparr>, Inr ())"
proof -
  have h: "(- 2 :: int) \<le> 0" by simp
  show ?thesis
    using h C10_nonpositive_delta [OF h,
        of "\<lparr>servers = [wolServer ''a'' PowerStateOff (phase StatusOffline)], events = []\<rparr>"]
    by simp
qed

lemma map_Status_id:
  assumes "distinct (map Name xs)" "s \<in> set xs"
  shows "map (\<lambda>x. if Name x = Name s then x\<lparr>Status := Status s\<rparr> else x) xs = xs"
proof (rule map_idI)
  fix x assume "x \<in> set xs"
  with assms have "Name x = Name s \<Longrightarrow> x = s"
    by (meson distinct_map inj_onD)
  then show "(if Name x = Name s then x\<lparr>Status := Status s\<rparr> else x) = x" by auto
qed

lemma StatusUpdate_same:
  assumes "distinct (map Name (servers w))" "s \<in> set (servers w)"
  shows "fst (StatusUpdate w s) = emit (StatusUpdateCall s) w"
  using assms by (auto simp: StatusUpdate_def emit_def map_Status_id)

lemma emit_emit: "emit b (emit a w) = w\<lparr>events := events w @ [a, b]\<rparr>"
  by (simp add: emit_def)

text \<open>
  What \<open>Reconcile\<close> does on a converged record with a failure count below 3 and an
  address, in a store keyed by unique names: it probes, calls no power capability, leaves
  every stored record as it is and returns success with no requeue. With phase active
  (desired on, reachable) it requests no store write. With phase offline (desired off,
  unreachable) it requests one status write, of the record as it is stored.
\<close>

lemma Reconcile_converged:
  assumes "Get w name = Inr s"
    and "distinct (map Name (servers w))"
    and "FailureCount (Status s) < 3"
    and "getServerAddress s \<noteq> []"
    and "(Status' (Status s) = StatusActive \<and> PowerState (Spec s) = PowerStateOn
            \<and> IsReachable r (getServerAddress s))
         \<or> (Status' (Status s) = StatusOffline \<and> PowerState (Spec s) = PowerStateOff
            \<and> \<not> IsReachable r (getServerAddress s))"
  shows "Reconcile r now w name =
           (w\<lparr>events := events w @ IsReachableCall (getServerAddress s)
                 # (if Status' (Status s) = StatusOffline then [StatusUpdateCall s] else [])\<rparr>,
            \<lparr>RequeueAfter = 0\<rparr>, None)"
proof -
  have d: "defaultPowerState s = s"
    using assms(5) by (auto simp: defaultPowerState_def const_defs)
  from assms(5) show ?thesis
  proof
    assume h: "Status' (Status s) = StatusActive \<and> PowerState (Spec s) = PowerStateOn
            \<and> IsReachable r (getServerAddress s)"
    then show ?thesis
      using assms(1,3,4)
      by (simp add: Reconcile_def Reconcile_action_def Let_def d const_defs emit_def)
  next
    assume h: "Status' (Status s) = StatusOffline \<and> PowerState (Spec s) = PowerStateOff
            \<and> \<not> IsReachable r (getServerAddress s)"
    then have e: "setStatus StatusOffline s = s"
      by (simp add: setStatus_def)
    have m: "s \<in> set (servers (emit (IsReachableCall (getServerAddress s)) w))"
      using Get_mem [OF assms(1)] by (simp add: emit_def)
    have dd: "distinct (map Name (servers (emit (IsReachableCall (getServerAddress s)) w)))"
      using assms(2) by (simp add: emit_def)
    show ?thesis
      using h assms(1,3,4)
      by (simp add: Reconcile_def Reconcile_action_def Let_def d e const_defs
            StatusUpdate_same [OF dd m] emit_emit) (simp add: const_defs [symmetric] e StatusUpdate_same [OF dd m] emit_emit)
  qed
qed

text \<open>
  C4. Reconciling a converged record is to produce no store write and no power call. The
  machine of the test "should not send any commands when already offline and desired is
  off" is converged: desired off, phase offline, probe unreachable. Its invocation calls
  no power capability and leaves the record as it is, but the trace holds a status write:
  the case for offline and unset phases writes whether or not the phase changed, where
  the case for the active phase writes only on a change.
\<close>

theorem C4_converged_offline_write:
  "Get \<lparr>servers = [wolServer ''a'' PowerStateOff (phase StatusOffline)], events = []\<rparr> ''a''
     = Inr (wolServer ''a'' PowerStateOff (phase StatusOffline))
   \<and> PowerState (Spec (wolServer ''a'' PowerStateOff (phase StatusOffline))) = PowerStateOff
   \<and> Status' (Status (wolServer ''a'' PowerStateOff (phase StatusOffline))) = StatusOffline
   \<and> \<not> IsReachable (mockReconciler False)
          (getServerAddress (wolServer ''a'' PowerStateOff (phase StatusOffline)))
   \<and> Reconcile (mockReconciler False) 1
        \<lparr>servers = [wolServer ''a'' PowerStateOff (phase StatusOffline)], events = []\<rparr> ''a''
       = (\<lparr>servers = [wolServer ''a'' PowerStateOff (phase StatusOffline)],
           events = [IsReachableCall ''192.168.1.100'',
                     StatusUpdateCall (wolServer ''a'' PowerStateOff (phase StatusOffline))]\<rparr>,
          \<lparr>RequeueAfter = 0\<rparr>, None)"
  by code_simp

lemma events_StatusUpdate: "events (fst (StatusUpdate w obj)) = events w @ [StatusUpdateCall obj]"
  by (simp add: StatusUpdate_def emit_def)

lemma events_emit: "events (emit e w) = events w @ [e]"
  by (simp add: emit_def)

lemma Reconcile_no_address:
  assumes "Get w name = Inr s"
    and "Status' (Status s) \<noteq> StatusFailed"
    and "FailureCount (Status s) < 3"
    and "getServerAddress s = []"
  shows "snd (Reconcile r now w name)
           = (\<lparr>RequeueAfter = 0\<rparr>, Some (''no address configured for server '' @ name))"
    and "Get (fst (Reconcile r now w name)) name
           = Inr (s\<lparr>Status := (Status s)\<lparr>Status' := StatusFailed,
                                        Message := ''No address configured for server''\<rparr>\<rparr>)"
    and "events (fst (Reconcile r now w name))
           = events w @ [StatusUpdateCall
               (setMessage ''No address configured for server''
                  (setStatus StatusFailed (defaultPowerState s)))]"
  using assms Get_name [OF assms(1)]
  by (simp_all add: Reconcile_def Let_def Get_StatusUpdate events_StatusUpdate
        setStatus_def setMessage_def)

lemma emit_neq: "emit e w \<noteq> w"
proof
  assume "emit e w = w"
  then have "events (emit e w) = events w" by simp
  then show False by (simp add: emit_def)
qed

lemma powerOn_config_error:
  assumes "powerOn r s w = (w, Some e)" and "Spec s' = Spec s"
  shows "powerOn r s' v = (v, Some e)"
  using assms emit_neq
  by (auto simp: powerOn_def split: if_splits option.splits)

lemma powerOff_config_error:
  assumes "powerOff r s w = (w, Some e)" and "Spec s' = Spec s"
  shows "powerOff r s' v = (v, Some e)"
  using assms emit_neq
  by (auto simp: powerOff_def split: if_splits option.splits)

lemma defaultPowerState_id: "PowerState (Spec s) \<noteq> [] \<Longrightarrow> defaultPowerState s = s"
  by (simp add: defaultPowerState_def)

lemma Reconcile_action_powerOn_error:
  assumes "powerOn r server w = (w, Some e)"
    and "PowerState (Spec server) = PowerStateOn"
    and "Status' (Status server) \<noteq> StatusActive"
  shows "Reconcile_action r w server =
           (fst (StatusUpdate w (setMessage (''Power action failed: '' @ e)
                                   (setStatus StatusFailed server))),
            \<lparr>RequeueAfter = 0\<rparr>, Some e)"
  using assms by (simp add: Reconcile_action_def Let_def const_defs)

lemma Reconcile_action_powerOff_error:
  assumes "powerOff r server w = (w, Some e)"
    and "PowerState (Spec server) = PowerStateOff"
    and "Status' (Status server) = StatusActive"
  shows "Reconcile_action r w server =
           (fst (StatusUpdate w (setMessage (''Power action failed: '' @ e)
                                   (setStatus StatusFailed server))),
            \<lparr>RequeueAfter = 0\<rparr>, Some e)"
  using assms by (simp add: Reconcile_action_def Let_def const_defs)

lemma Reconcile_powerOn_config_error:
  assumes "Get w name = Inr s"
    and "Status' (Status s) \<notin> {StatusFailed, StatusPending, StatusDraining}"
    and "FailureCount (Status s) < 3"
    and "getServerAddress s \<noteq> []"
    and "PowerState (Spec s) = PowerStateOn"
    and "\<not> IsReachable r (getServerAddress s)
         \<or> Status' (Status s) \<notin> {StatusActive, StatusOffline, []}"
    and "powerOn r s w = (w, Some e)"
  shows "snd (Reconcile r now w name) = (\<lparr>RequeueAfter = 0\<rparr>, Some e)"
    and "Get (fst (Reconcile r now w name)) name
           = Inr (s\<lparr>Status := (Status s)\<lparr>Status' := StatusFailed,
                                        Message := ''Power action failed: '' @ e\<rparr>\<rparr>)"
    and "filter isPowerCall (events (fst (Reconcile r now w name))) = filter isPowerCall (events w)"
proof -
  have d: "defaultPowerState s = s"
    using assms(5) by (simp add: defaultPowerState_id const_defs)
  have n: "Name s = name" by (rule Get_name [OF assms(1)])
  have po: "\<And>s' v. Spec s' = Spec s \<Longrightarrow> powerOn r s' v = (v, Some e)"
    by (rule powerOn_config_error [OF assms(7)])
  let ?w1 = "emit (IsReachableCall (getServerAddress s)) w"
  let ?off = "setStatus StatusOffline s"
  let ?w2 = "fst (StatusUpdate ?w1 ?off)"
  let ?fail = "\<lambda>x. setMessage (''Power action failed: '' @ e) (setStatus StatusFailed x)"
  have R: "Reconcile r now w name =
             (if Status' (Status s) = StatusActive \<or> Status' (Status s) = StatusOffline
                 \<or> Status' (Status s) = []
              then (fst (StatusUpdate ?w2 (?fail ?off)), \<lparr>RequeueAfter = 0\<rparr>, Some e)
              else (fst (StatusUpdate ?w1 (?fail s)), \<lparr>RequeueAfter = 0\<rparr>, Some e))"
    using assms(1-6)
    by (auto simp add: Reconcile_def Let_def d
          Reconcile_action_powerOn_error [OF po] const_defs)
  show "snd (Reconcile r now w name) = (\<lparr>RequeueAfter = 0\<rparr>, Some e)"
    by (simp add: R)
  show "Get (fst (Reconcile r now w name)) name
           = Inr (s\<lparr>Status := (Status s)\<lparr>Status' := StatusFailed,
                                        Message := ''Power action failed: '' @ e\<rparr>\<rparr>)"
    using assms(1) n by (simp add: R Get_StatusUpdate setStatus_def setMessage_def)
  show "filter isPowerCall (events (fst (Reconcile r now w name))) = filter isPowerCall (events w)"
    by (simp add: R events_StatusUpdate events_emit isPowerCall_def)
qed

lemma Reconcile_powerOff_config_error:
  assumes "Get w name = Inr s"
    and "Status' (Status s) \<in> {StatusActive, StatusOffline, []}"
    and "FailureCount (Status s) < 3"
    and "getServerAddress s \<noteq> []"
    and "PowerState (Spec s) = PowerStateOff"
    and "IsReachable r (getServerAddress s)"
    and "powerOff r s w = (w, Some e)"
  shows "snd (Reconcile r now w name) = (\<lparr>RequeueAfter = 0\<rparr>, Some e)"
    and "Get (fst (Reconcile r now w name)) name
           = Inr (s\<lparr>Status := (Status s)\<lparr>Status' := StatusFailed,
                                        Message := ''Power action failed: '' @ e\<rparr>\<rparr>)"
    and "filter isPowerCall (events (fst (Reconcile r now w name))) = filter isPowerCall (events w)"
proof -
  have d: "defaultPowerState s = s"
    using assms(5) by (simp add: defaultPowerState_id const_defs)
  have n: "Name s = name" by (rule Get_name [OF assms(1)])
  have po: "\<And>s' v. Spec s' = Spec s \<Longrightarrow> powerOff r s' v = (v, Some e)"
    by (rule powerOff_config_error [OF assms(7)])
  let ?w1 = "emit (IsReachableCall (getServerAddress s)) w"
  let ?act = "setStatus StatusActive s"
  let ?w2 = "fst (StatusUpdate ?w1 ?act)"
  let ?fail = "\<lambda>x. setMessage (''Power action failed: '' @ e) (setStatus StatusFailed x)"
  have R: "Reconcile r now w name =
             (if Status' (Status s) = StatusActive
              then (fst (StatusUpdate ?w1 (?fail s)), \<lparr>RequeueAfter = 0\<rparr>, Some e)
              else (fst (StatusUpdate ?w2 (?fail ?act)), \<lparr>RequeueAfter = 0\<rparr>, Some e))"
    using assms(1-6)
    by (auto simp add: Reconcile_def Let_def d
          Reconcile_action_powerOff_error [OF po] const_defs)
  show "snd (Reconcile r now w name) = (\<lparr>RequeueAfter = 0\<rparr>, Some e)"
    by (simp add: R)
  show "Get (fst (Reconcile r now w name)) name
           = Inr (s\<lparr>Status := (Status s)\<lparr>Status' := StatusFailed,
                                        Message := ''Power action failed: '' @ e\<rparr>\<rparr>)"
    using assms(1) n by (simp add: R Get_StatusUpdate setStatus_def setMessage_def)
  show "filter isPowerCall (events (fst (Reconcile r now w name))) = filter isPowerCall (events w)"
    by (simp add: R events_StatusUpdate events_emit isPowerCall_def)
qed

text \<open>
  C8. A configuration error met by \<open>Reconcile\<close> on a record that is not failed and whose
  failure count is below 3: no address resolved from the control parameters, or a power
  action that fails on the control fields before any capability is called (\<open>powerOn\<close>
  when the machine is to be on and the probe does not classify it as active, \<open>powerOff\<close>
  when it is to be off and the probe classifies it as active). The invocation returns the
  error with no requeue, stores phase
  failed and the error detail as the message, leaves failure count and failure time as
  they were, and calls no power capability.
\<close>

theorem C8_configuration_error:
  assumes "Get w name = Inr s"
    and "Status' (Status s) \<noteq> StatusFailed"
    and "FailureCount (Status s) < 3"
    and "(getServerAddress s = []
            \<and> e = ''no address configured for server '' @ name
            \<and> m = ''No address configured for server'')
         \<or> (getServerAddress s \<noteq> [] \<and> PowerState (Spec s) = PowerStateOn
            \<and> Status' (Status s) \<notin> {StatusPending, StatusDraining}
            \<and> (\<not> IsReachable r (getServerAddress s)
                 \<or> Status' (Status s) \<notin> {StatusActive, StatusOffline, []})
            \<and> powerOn r s w = (w, Some e) \<and> m = ''Power action failed: '' @ e)
         \<or> (getServerAddress s \<noteq> [] \<and> PowerState (Spec s) = PowerStateOff
            \<and> Status' (Status s) \<in> {StatusActive, StatusOffline, []}
            \<and> IsReachable r (getServerAddress s)
            \<and> powerOff r s w = (w, Some e) \<and> m = ''Power action failed: '' @ e)"
  shows "snd (Reconcile r now w name) = (\<lparr>RequeueAfter = 0\<rparr>, Some e)
         \<and> Get (fst (Reconcile r now w name)) name
             = Inr (s\<lparr>Status := (Status s)\<lparr>Status' := StatusFailed, Message := m\<rparr>\<rparr>)
         \<and> filter isPowerCall (events (fst (Reconcile r now w name)))
             = filter isPowerCall (events w)"
proof -
  from assms(4) consider
      (address) "getServerAddress s = []"
        "e = ''no address configured for server '' @ name"
        "m = ''No address configured for server''"
    | (on) "getServerAddress s \<noteq> []" "PowerState (Spec s) = PowerStateOn"
        "Status' (Status s) \<notin> {StatusPending, StatusDraining}"
        "\<not> IsReachable r (getServerAddress s)
           \<or> Status' (Status s) \<notin> {StatusActive, StatusOffline, []}"
        "powerOn r s w = (w, Some e)" "m = ''Power action failed: '' @ e"
    | (off) "getServerAddress s \<noteq> []" "PowerState (Spec s) = PowerStateOff"
        "Status' (Status s) \<in> {StatusActive, StatusOffline, []}"
        "IsReachable r (getServerAddress s)"
        "powerOff r s w = (w, Some e)" "m = ''Power action failed: '' @ e"
    by blast
  then show ?thesis
  proof cases
    case address
    show ?thesis
      using Reconcile_no_address [OF assms(1-3) address(1), of r now] address(2,3)
      by (simp add: isPowerCall_def)
  next
    case on
    have p: "Status' (Status s) \<notin> {StatusFailed, StatusPending, StatusDraining}"
      using assms(2) on(3) by simp
    show ?thesis
      using Reconcile_powerOn_config_error [OF assms(1) p assms(3) on(1,2,4,5), of now] on(6)
      by simp
  next
    case off
    show ?thesis
      using Reconcile_powerOff_config_error [OF assms(1) off(3) assms(3) off(1,2,4,5), of now] off(6)
      by simp
  qed
qed

theorem C8_configuration_error_witness:
  "snd (Reconcile (mockReconciler False) 1
          \<lparr>servers = [noMAC (wolServer ''a'' PowerStateOn (phase []))], events = []\<rparr> ''a'')
     = (\<lparr>RequeueAfter = 0\<rparr>, Some ''WOL MAC address is required'')
   \<and> Get (fst (Reconcile (mockReconciler False) 1
          \<lparr>servers = [noMAC (wolServer ''a'' PowerStateOn (phase []))], events = []\<rparr> ''a''))
        ''a''
     = Inr ((noMAC (wolServer ''a'' PowerStateOn (phase [])))
              \<lparr>Status := (Status (noMAC (wolServer ''a'' PowerStateOn (phase []))))
                 \<lparr>Status' := StatusFailed,
                    Message := ''Power action failed: WOL MAC address is required''\<rparr>\<rparr>)
   \<and> filter isPowerCall (events (fst (Reconcile (mockReconciler False) 1
          \<lparr>servers = [noMAC (wolServer ''a'' PowerStateOn (phase []))], events = []\<rparr> ''a'')))
     = filter isPowerCall
         (events \<lparr>servers = [noMAC (wolServer ''a'' PowerStateOn (phase []))], events = []\<rparr>)"
proof -
  let ?s = "noMAC (wolServer ''a'' PowerStateOn (phase []))"
  let ?w = "\<lparr>servers = [?s], events = []\<rparr>"
  let ?e = "''WOL MAC address is required''"
  let ?m = "''Power action failed: WOL MAC address is required''"
  have g: "Get ?w ''a'' = Inr ?s"
    by (simp add: Get_def wolServer_def noMAC_def)
  have p: "Status' (Status ?s) \<noteq> StatusFailed"
    by (simp add: wolServer_def noMAC_def phase_def const_defs)
  have f: "FailureCount (Status ?s) < 3"
    by (simp add: wolServer_def noMAC_def phase_def)
  have c: "(getServerAddress ?s = []
            \<and> ?e = ''no address configured for server '' @ ''a''
            \<and> ?m = ''No address configured for server'')
         \<or> (getServerAddress ?s \<noteq> [] \<and> PowerState (Spec ?s) = PowerStateOn
            \<and> Status' (Status ?s) \<notin> {StatusPending, StatusDraining}
            \<and> (\<not> IsReachable (mockReconciler False) (getServerAddress ?s)
                 \<or> Status' (Status ?s) \<notin> {StatusActive, StatusOffline, []})
            \<and> powerOn (mockReconciler False) ?s ?w = (?w, Some ?e)
            \<and> ?m = ''Power action failed: '' @ ?e)
         \<or> (getServerAddress ?s \<noteq> [] \<and> PowerState (Spec ?s) = PowerStateOff
            \<and> Status' (Status ?s) \<in> {StatusActive, StatusOffline, []}
            \<and> IsReachable (mockReconciler False) (getServerAddress ?s)
            \<and> powerOff (mockReconciler False) ?s ?w = (?w, Some ?e)
            \<and> ?m = ''Power action failed: '' @ ?e)"
    by (simp add: getServerAddress_def powerOn_def wolServer_def noMAC_def phase_def
          mockReconciler_def const_defs)
  show ?thesis
    by (rule C8_configuration_error [OF g p f c])
qed

text \<open>
  The machine whose control parameters are missing, never reconciled before: its first
  invocation stores phase failed while the failure count is 0.
\<close>

theorem C8_configuration_error_counterexample:
  "Get \<lparr>servers = [noControl (wolServer ''a'' PowerStateOn (phase []))], events = []\<rparr> ''a''
     = Inr (noControl (wolServer ''a'' PowerStateOn (phase [])))
   \<and> getServerAddress (noControl (wolServer ''a'' PowerStateOn (phase []))) = []
   \<and> FailureCount (Status (noControl (wolServer ''a'' PowerStateOn (phase [])))) = 0
   \<and> Get (fst (Reconcile (mockReconciler False) 1
        \<lparr>servers = [noControl (wolServer ''a'' PowerStateOn (phase []))], events = []\<rparr> ''a''))
        ''a''
     = Inr (noControl (wolServer ''a'' PowerStateOn
              \<lparr>Status' = StatusFailed, Message = ''No address configured for server'',
                 FailingSince = None, FailureCount = 0\<rparr>))"
  by code_simp

lemma Get_Reconcile_action:
  assumes "Get w name = Inr s0"
  shows "\<exists>s1. Get (fst (Reconcile_action r w server)) name = Inr s1
           \<and> (s1 = s0
                \<or> (FailureCount (Status s1) = FailureCount (Status server)
                    \<and> FailingSince (Status s1) = FailingSince (Status server)))"
proof -
  obtain w1 e1 where on: "powerOn r server w = (w1, e1)" by (cases "powerOn r server w")
  obtain w2 e2 where off: "powerOff r server w = (w2, e2)" by (cases "powerOff r server w")
  have g1: "Get w1 name = Inr s0" using Get_powerOn [of r server w name] on assms by simp
  have g2: "Get w2 name = Inr s0" using Get_powerOff [of r server w name] off assms by simp
  show ?thesis
    using assms g1 g2
    by (cases e1; cases e2)
       (auto simp: Reconcile_action_def Let_def Get_StatusUpdate on off)
qed

lemma Reconcile_other_phase:
  assumes "Get w name = Inr s"
    and "Status' (Status s) \<notin> {StatusFailed, StatusPending, StatusDraining}"
    and "FailureCount (Status s) < 3"
    and "getServerAddress s \<noteq> []"
  shows "\<exists>s1. Get (fst (Reconcile r now w name)) name = Inr s1
           \<and> FailureCount (Status s1) = FailureCount (Status s)
           \<and> FailingSince (Status s1) = FailingSince (Status s)"
proof -
  let ?w1 = "emit (IsReachableCall (getServerAddress s)) w"
  let ?d = "defaultPowerState s"
  have n: "Name s = name" by (rule Get_name [OF assms(1)])
  have g1: "Get ?w1 name = Inr s" using assms(1) by simp
  have g2: "Get (fst (StatusUpdate ?w1 (setStatus x ?d))) name
              = Inr (s\<lparr>Status := Status (setStatus x ?d)\<rparr>)" for x
    using g1 n by (simp add: Get_StatusUpdate)
  have "Reconcile r now w name = Reconcile_action r ?w1 ?d
        \<or> (\<exists>x. Reconcile r now w name
                   = Reconcile_action r (fst (StatusUpdate ?w1 (setStatus x ?d))) (setStatus x ?d))"
    using assms by (auto simp: Reconcile_def Let_def)
  then show ?thesis
  proof (elim disjE exE)
    assume a: "Reconcile r now w name = Reconcile_action r ?w1 ?d"
    from Get_Reconcile_action [OF g1, of r ?d] show ?thesis
      unfolding a by auto
  next
    fix x
    assume b: "Reconcile r now w name
                 = Reconcile_action r (fst (StatusUpdate ?w1 (setStatus x ?d))) (setStatus x ?d)"
    from Get_Reconcile_action [OF g2, of r x "setStatus x ?d"] show ?thesis
      unfolding b by auto
  qed
qed

text \<open>
  C9. One invocation of \<open>Reconcile\<close> on a stored record: if it takes the record from
  pending to active or from draining to offline, the failure count is 0 and the failure
  time is null afterwards; in every other case the two fields are either both as before,
  or the count is one more and the failure time is the one before if there was one and
  the current time only if there was none.
\<close>

theorem C9_failure_streak:
  assumes "Get w name = Inr s"
  shows "\<exists>s'. Get (fst (Reconcile r now w name)) name = Inr s'
           \<and> (if (Status' (Status s) = StatusPending \<and> Status' (Status s') = StatusActive)
                  \<or> (Status' (Status s) = StatusDraining \<and> Status' (Status s') = StatusOffline)
               then FailureCount (Status s') = 0 \<and> FailingSince (Status s') = None
               else (FailureCount (Status s') = FailureCount (Status s)
                       \<and> FailingSince (Status s') = FailingSince (Status s))
                    \<or> (FailureCount (Status s') = FailureCount (Status s) + 1
                       \<and> FailingSince (Status s')
                           = (case FailingSince (Status s) of None \<Rightarrow> Some now | Some t \<Rightarrow> Some t)))"
proof -
  have n: "Name s = name" by (rule Get_name [OF assms(1)])
  consider (failed) "Status' (Status s) = StatusFailed"
    | (threshold) "Status' (Status s) \<noteq> StatusFailed" "FailureCount (Status s) \<ge> 3"
    | (noaddr) "Status' (Status s) \<noteq> StatusFailed" "FailureCount (Status s) < 3"
        "getServerAddress s = []"
    | (waiting) "Status' (Status s) \<in> {StatusPending, StatusDraining}"
        "FailureCount (Status s) < 3" "getServerAddress s \<noteq> []"
    | (other) "Status' (Status s) \<notin> {StatusFailed, StatusPending, StatusDraining}"
        "FailureCount (Status s) < 3" "getServerAddress s \<noteq> []"
    by (cases "FailureCount (Status s) < 3") (auto simp: const_defs)
  then show ?thesis
  proof cases
    case failed
    then show ?thesis using assms by (simp add: Reconcile_failed const_defs)
  next
    case threshold
    then show ?thesis using Reconcile_threshold(2) [OF assms, of r now] by (simp add: const_defs)
  next
    case noaddr
    then show ?thesis using Reconcile_no_address(2) [OF assms, of r now] by (simp add: const_defs)
  next
    case waiting
    then show ?thesis using assms n
      by (auto simp: Reconcile_def Let_def Get_StatusUpdate const_defs split: option.splits)
  next
    case other
    from Reconcile_other_phase [OF assms other, of r now] other(1) show ?thesis
      by (auto simp: const_defs)
  qed
qed

theorem C9_failure_streak_witness:
  "\<exists>s'. Get (fst (Reconcile (mockReconciler True) 9
             \<lparr>servers = [wolServer ''a'' PowerStateOn
                 \<lparr>Status' = StatusPending, Message = [], FailingSince = Some 4,
                    FailureCount = 2\<rparr>], events = []\<rparr> ''a'')) ''a'' = Inr s'
       \<and> Status' (Status s') = StatusActive
       \<and> FailureCount (Status s') = 0 \<and> FailingSince (Status s') = None"
proof -
  let ?s = "wolServer ''a'' PowerStateOn
              \<lparr>Status' = StatusPending, Message = [], FailingSince = Some 4, FailureCount = 2\<rparr>"
  let ?w = "\<lparr>servers = [?s], events = []\<rparr>"
  have g: "Get ?w ''a'' = Inr ?s"
    by (simp add: Get_def wolServer_def)
  have a: "Get (fst (Reconcile (mockReconciler True) 9 ?w ''a'')) ''a''
             = Inr (wolServer ''a'' PowerStateOn
                 \<lparr>Status' = StatusActive, Message = [], FailingSince = None, FailureCount = 0\<rparr>)"
    by code_simp
  from C9_failure_streak [OF g, of "mockReconciler True" 9]
  obtain s' where 1: "Get (fst (Reconcile (mockReconciler True) 9 ?w ''a'')) ''a'' = Inr s'"
    and 2: "if (Status' (Status ?s) = StatusPending \<and> Status' (Status s') = StatusActive)
               \<or> (Status' (Status ?s) = StatusDraining \<and> Status' (Status s') = StatusOffline)
            then FailureCount (Status s') = 0 \<and> FailingSince (Status s') = None
            else (FailureCount (Status s') = FailureCount (Status ?s)
                    \<and> FailingSince (Status s') = FailingSince (Status ?s))
                 \<or> (FailureCount (Status s') = FailureCount (Status ?s) + 1
                    \<and> FailingSince (Status s')
                        = (case FailingSince (Status ?s) of None \<Rightarrow> Some 9 | Some t \<Rightarrow> Some t))"
    by blast
  from 1 a have 3: "Status' (Status s') = StatusActive"
    by (auto simp: wolServer_def)
  have 4: "Status' (Status ?s) = StatusPending"
    by (simp add: wolServer_def)
  from 2 3 4 have "FailureCount (Status s') = 0 \<and> FailingSince (Status s') = None"
    by simp
  with 1 3 show ?thesis by blast
qed

subsection \<open>The adapter\<close>

lemma desire_simps [simp]:
  "Name (desire p s) = Name s"
  "Status (desire p s) = Status s"
  "PowerState (Spec (desire p s)) = p"
  "Type (Spec (desire p s)) = Type (Spec s)"
  "Control (Spec (desire p s)) = Control (Spec s)"
  "s\<lparr>Spec := Spec (desire p s)\<rparr> = desire p s"
  by (simp_all add: desire_def)

lemma Update_at:
  assumes "distinct (map Name (pre @ x # post))" and "servers w = pre @ x # post"
    and "Name obj = Name x"
  shows "Update w obj
           = (w\<lparr>servers := pre @ x\<lparr>Spec := Spec obj\<rparr> # post,
                events := events w @ [UpdateCall obj]\<rparr>, None)"
proof -
  have a: "Name x \<notin> Name ` set pre" and b: "Name x \<notin> Name ` set post"
    using assms(1) by simp_all
  have "map (\<lambda>s. if Name s = Name x then s\<lparr>Spec := Spec obj\<rparr> else s) pre = pre"
  proof (rule map_idI)
    fix y assume "y \<in> set pre"
    with a have "Name y \<noteq> Name x" by (metis imageI)
    then show "(if Name y = Name x then y\<lparr>Spec := Spec obj\<rparr> else y) = y" by simp
  qed
  moreover have "map (\<lambda>s. if Name s = Name x then s\<lparr>Spec := Spec obj\<rparr> else s) post = post"
  proof (rule map_idI)
    fix y assume "y \<in> set post"
    with b have "Name y \<noteq> Name x" by (metis imageI)
    then show "(if Name y = Name x then y\<lparr>Spec := Spec obj\<rparr> else y) = y" by simp
  qed
  ultimately show ?thesis
    using assms(2,3) by (simp add: Update_def emit_def)
qed

lemma NodeGroupIncreaseSize_loop_flipFirst:
  assumes "distinct (map Name (pre @ items))" and "servers w = pre @ items"
  shows "servers (fst (NodeGroupIncreaseSize_loop w delta p items))
           = pre @ flipFirst (nat (delta - p)) PowerStateOff PowerStateOn items
         \<and> snd (NodeGroupIncreaseSize_loop w delta p items)
           = Inr (p + int (min (nat (delta - p)) (wants PowerStateOff items)))"
  using assms
proof (induction items arbitrary: w pre p)
  case Nil
  then show ?case by (cases "nat (delta - p)") (simp_all add: wants_def)
next
  case (Cons x items)
  show ?case
  proof (cases "p \<ge> delta")
    case True
    then show ?thesis using Cons.prems by simp
  next
    case False
    then obtain n where n: "nat (delta - p) = Suc n" "nat (delta - (p + 1)) = n"
      by (cases "nat (delta - p)") auto
    show ?thesis
    proof (cases "PowerState (Spec x) = PowerStateOff")
      case True
      let ?w1 = "w\<lparr>servers := pre @ desire PowerStateOn x # items,
                    events := events w @ [UpdateCall (desire PowerStateOn x)]\<rparr>"
      have u: "Update w (desire PowerStateOn x) = (?w1, None)"
        using Update_at [OF Cons.prems(1,2), of "desire PowerStateOn x"] by simp
      have d: "distinct (map Name ((pre @ [desire PowerStateOn x]) @ items))"
        using Cons.prems(1) by simp
      have s: "servers ?w1 = (pre @ [desire PowerStateOn x]) @ items" by simp
      have "NodeGroupIncreaseSize_loop w delta p (x # items)
              = NodeGroupIncreaseSize_loop ?w1 delta (p + 1) items"
        using False True u by simp
      with Cons.IH [OF d s, of "p + 1"] True n show ?thesis
        by (simp add: wants_def)
    next
      case F: False
      have d: "distinct (map Name ((pre @ [x]) @ items))"
        using Cons.prems(1) by simp
      have s: "servers w = (pre @ [x]) @ items" using Cons.prems(2) by simp
      have "NodeGroupIncreaseSize_loop w delta p (x # items)
              = NodeGroupIncreaseSize_loop w delta p items"
        using False F by simp
      with Cons.IH [OF d s, of p] F n show ?thesis
        by (simp add: wants_def)
    qed
  qed
qed

lemma NodeGroupDecreaseTargetSize_loop_flipFirst:
  assumes "distinct (map Name (pre @ items))" and "servers w = pre @ items"
  shows "servers (fst (NodeGroupDecreaseTargetSize_loop w delta p items))
           = pre @ flipFirst (nat (delta - p)) PowerStateOn PowerStateOff items
         \<and> snd (NodeGroupDecreaseTargetSize_loop w delta p items)
           = Inr (p + int (min (nat (delta - p)) (wants PowerStateOn items)))"
  using assms
proof (induction items arbitrary: w pre p)
  case Nil
  then show ?case by (cases "nat (delta - p)") (simp_all add: wants_def)
next
  case (Cons x items)
  show ?case
  proof (cases "p \<ge> delta")
    case True
    then show ?thesis using Cons.prems by simp
  next
    case False
    then obtain n where n: "nat (delta - p) = Suc n" "nat (delta - (p + 1)) = n"
      by (cases "nat (delta - p)") auto
    show ?thesis
    proof (cases "PowerState (Spec x) = PowerStateOn")
      case True
      let ?w1 = "w\<lparr>servers := pre @ desire PowerStateOff x # items,
                    events := events w @ [UpdateCall (desire PowerStateOff x)]\<rparr>"
      have u: "Update w (desire PowerStateOff x) = (?w1, None)"
        using Update_at [OF Cons.prems(1,2), of "desire PowerStateOff x"] by simp
      have d: "distinct (map Name ((pre @ [desire PowerStateOff x]) @ items))"
        using Cons.prems(1) by simp
      have s: "servers ?w1 = (pre @ [desire PowerStateOff x]) @ items" by simp
      have "NodeGroupDecreaseTargetSize_loop w delta p (x # items)
              = NodeGroupDecreaseTargetSize_loop ?w1 delta (p + 1) items"
        using False True u by simp
      with Cons.IH [OF d s, of "p + 1"] True n show ?thesis
        by (simp add: wants_def)
    next
      case F: False
      have d: "distinct (map Name ((pre @ [x]) @ items))"
        using Cons.prems(1) by simp
      have s: "servers w = (pre @ [x]) @ items" using Cons.prems(2) by simp
      have "NodeGroupDecreaseTargetSize_loop w delta p (x # items)
              = NodeGroupDecreaseTargetSize_loop w delta p items"
        using False F by simp
      with Cons.IH [OF d s, of p] F n show ?thesis
        by (simp add: wants_def)
    qed
  qed
qed

lemma flipFirst_all:
  "wants a xs \<le> n \<Longrightarrow>
   flipFirst n a b xs = map (\<lambda>x. if PowerState (Spec x) = a then desire b x else x) xs"
proof (induction xs arbitrary: n)
  case Nil
  then show ?case by (cases n) simp_all
next
  case (Cons x xs)
  show ?case
  proof (cases n)
    case 0
    with Cons.prems have "\<forall>y \<in> set (x # xs). PowerState (Spec y) \<noteq> a"
      by (auto simp: wants_def filter_empty_conv split: if_splits)
    then have "map (\<lambda>x. if PowerState (Spec x) = a then desire b x else x) (x # xs) = x # xs"
      by (intro map_idI) auto
    with 0 show ?thesis by simp
  next
    case (Suc m)
    with Cons show ?thesis by (auto simp: wants_def)
  qed
qed



lemma length_filter_flip_all:
  assumes "a \<noteq> b"
  shows "length (filter (\<lambda>s. PowerState (Spec s) = b)
           (map (\<lambda>s. if PowerState (Spec s) = a
                       then s\<lparr>Spec := (Spec s)\<lparr>PowerState := b\<rparr>\<rparr> else s) xs))
           = length (filter (\<lambda>s. PowerState (Spec s) = b) xs)
             + length (filter (\<lambda>s. PowerState (Spec s) = a) xs)"
  using assms by (induction xs) auto

lemma filter_flip_all_empty:
  assumes "a \<noteq> b"
  shows "filter (\<lambda>s. PowerState (Spec s) = a)
           (map (\<lambda>s. if PowerState (Spec s) = a
                       then s\<lparr>Spec := (Spec s)\<lparr>PowerState := b\<rparr>\<rparr> else s) xs) = []"
  using assms by (induction xs) auto

text \<open>
  C5. In a store keyed by unique names, \<open>NodeGroupIncreaseSize\<close> on the known pool with
  a delta greater than the number \<open>k\<close> of records whose desired power state is off
  returns the error "could not provision enough servers" (requested delta, provisioned
  \<open>k\<close>). The store then holds every record that was off with its desired power state on
  and every other record as it was: the records that are on are \<open>k\<close> more than before,
  none is off, and nothing is rolled back.
\<close>

theorem C5_increase_shortfall:
  assumes "distinct (map Name (servers w))"
    and "int (length (filter (\<lambda>s. PowerState (Spec s) = PowerStateOff) (servers w))) < delta"
  shows "snd (NodeGroupIncreaseSize w defaultNodeGroupID delta)
           = Inl (NotEnoughServers delta
                    (int (length (filter (\<lambda>s. PowerState (Spec s) = PowerStateOff) (servers w)))))
         \<and> servers (fst (NodeGroupIncreaseSize w defaultNodeGroupID delta))
           = map (\<lambda>s. if PowerState (Spec s) = PowerStateOff
                       then s\<lparr>Spec := (Spec s)\<lparr>PowerState := PowerStateOn\<rparr>\<rparr> else s)
               (servers w)
         \<and> length (filter (\<lambda>s. PowerState (Spec s) = PowerStateOn)
               (servers (fst (NodeGroupIncreaseSize w defaultNodeGroupID delta))))
           = length (filter (\<lambda>s. PowerState (Spec s) = PowerStateOn) (servers w))
             + length (filter (\<lambda>s. PowerState (Spec s) = PowerStateOff) (servers w))
         \<and> filter (\<lambda>s. PowerState (Spec s) = PowerStateOff)
               (servers (fst (NodeGroupIncreaseSize w defaultNodeGroupID delta))) = []"
proof -
  let ?k = "wants PowerStateOff (servers w)"
  let ?g = "\<lambda>s. if PowerState (Spec s) = PowerStateOff
                then s\<lparr>Spec := (Spec s)\<lparr>PowerState := PowerStateOn\<rparr>\<rparr> else s"
  have k: "int ?k < delta" using assms(2) by (simp add: wants_def)
  then have pos: "0 < delta" by linarith
  have le: "?k \<le> nat (delta - 0)" using k by simp
  have m: "min (nat (delta - 0)) ?k = ?k" using le by simp
  obtain w' res where l: "NodeGroupIncreaseSize_loop w delta 0 (servers w) = (w', res)"
    by (cases "NodeGroupIncreaseSize_loop w delta 0 (servers w)")
  from NodeGroupIncreaseSize_loop_flipFirst [of "[]" "servers w" w delta 0] assms(1) l
  have 1: "servers w' = flipFirst (nat (delta - 0)) PowerStateOff PowerStateOn (servers w)"
    and 2: "res = Inr (0 + int (min (nat (delta - 0)) ?k))"
    by simp_all
  from 2 m have 3: "res = Inr (int ?k)" by simp
  have r: "NodeGroupIncreaseSize w defaultNodeGroupID delta
             = (w', Inl (NotEnoughServers delta
                  (int (length (filter (\<lambda>s. PowerState (Spec s) = PowerStateOff) (servers w))))))"
    using pos k l 3 by (simp add: NodeGroupIncreaseSize_def List_def wants_def)
  have sv: "servers w' = map ?g (servers w)"
    using 1 flipFirst_all [OF le, of PowerStateOn] by (simp add: desire_def)
  have ne: "PowerStateOff \<noteq> PowerStateOn" by (simp add: const_defs)
  have c1: "length (filter (\<lambda>s. PowerState (Spec s) = PowerStateOn) (servers w'))
              = length (filter (\<lambda>s. PowerState (Spec s) = PowerStateOn) (servers w))
                + length (filter (\<lambda>s. PowerState (Spec s) = PowerStateOff) (servers w))"
    unfolding sv by (rule length_filter_flip_all [OF ne])
  have c2: "filter (\<lambda>s. PowerState (Spec s) = PowerStateOff) (servers w') = []"
    unfolding sv by (rule filter_flip_all_empty [OF ne])
  show ?thesis
    unfolding r fst_conv snd_conv by (intro conjI refl sv c1 c2)
qed

theorem C5_increase_shortfall_witness:
  "snd (NodeGroupIncreaseSize twoServers defaultNodeGroupID 2)
     = Inl (NotEnoughServers 2
              (int (length (filter (\<lambda>s. PowerState (Spec s) = PowerStateOff)
                              (servers twoServers)))))
   \<and> servers (fst (NodeGroupIncreaseSize twoServers defaultNodeGroupID 2))
     = map (\<lambda>s. if PowerState (Spec s) = PowerStateOff
                 then s\<lparr>Spec := (Spec s)\<lparr>PowerState := PowerStateOn\<rparr>\<rparr> else s)
         (servers twoServers)
   \<and> length (filter (\<lambda>s. PowerState (Spec s) = PowerStateOn)
         (servers (fst (NodeGroupIncreaseSize twoServers defaultNodeGroupID 2))))
     = length (filter (\<lambda>s. PowerState (Spec s) = PowerStateOn) (servers twoServers))
       + length (filter (\<lambda>s. PowerState (Spec s) = PowerStateOff) (servers twoServers))
   \<and> filter (\<lambda>s. PowerState (Spec s) = PowerStateOff)
         (servers (fst (NodeGroupIncreaseSize twoServers defaultNodeGroupID 2))) = []"
proof -
  have d: "distinct (map Name (servers twoServers))"
    by (simp add: twoServers_def wolServer_def)
  have k: "int (length (filter (\<lambda>s. PowerState (Spec s) = PowerStateOff) (servers twoServers))) < 2"
    by (simp add: twoServers_def wolServer_def const_defs)
  show ?thesis
    by (rule C5_increase_shortfall [OF d k])
qed



lemma Update_by_name:
  assumes "distinct (map Name (servers w))" and "Get w n = Inr x"
  shows "Update w (desire p x)
           = (w\<lparr>servers := map (\<lambda>s. if Name s = n then desire p s else s) (servers w),
                events := events w @ [UpdateCall (desire p x)]\<rparr>, None)"
proof -
  have nx: "Name x = n" by (rule Get_name [OF assms(2)])
  have mx: "x \<in> set (servers w)" by (rule Get_mem [OF assms(2)])
  have "map (\<lambda>s. if Name s = Name (desire p x) then s\<lparr>Spec := Spec (desire p x)\<rparr> else s) (servers w)
          = map (\<lambda>s. if Name s = n then desire p s else s) (servers w)"
  proof (rule map_cong [OF refl])
    fix s assume "s \<in> set (servers w)"
    with assms(1) mx have "Name s = Name x \<Longrightarrow> s = x"
      by (meson distinct_map inj_onD)
    then show "(if Name s = Name (desire p x) then s\<lparr>Spec := Spec (desire p x)\<rparr> else s)
                 = (if Name s = n then desire p s else s)"
      using nx by auto
  qed
  moreover have "Name (desire p x) \<in> Name ` set (servers w)"
    using mx by (simp add: image_iff) blast
  ultimately show ?thesis
    by (simp add: Update_def emit_def)
qed

lemma map_Name_desire [simp]:
  "map (Name \<circ> (\<lambda>s. if P s then desire p s else s)) xs = map Name xs"
  by (induction xs) auto

lemma Get_NotFound: "n \<notin> Name ` set (servers w) \<Longrightarrow> Get w n = Inl NotFound"
  by (simp add: Get_def find_None_name [THEN iffD2])

lemma Get_found: "n \<in> Name ` set (servers w) \<Longrightarrow> \<exists>x. Get w n = Inr x"
  using find_None_name [of n "servers w"]
  by (cases "find (\<lambda>s. Name s = n) (servers w)") (auto simp: Get_def)

lemma NodeGroupDeleteNodes_loop_takeWhile:
  assumes "distinct (map Name (servers w))"
  shows "servers (fst (NodeGroupDeleteNodes_loop w nodes))
           = map (\<lambda>s. if Name s \<in> set (takeWhile (\<lambda>n. n \<in> Name ` set (servers w)) nodes)
                       then desire PowerStateOff s else s) (servers w)
         \<and> snd (NodeGroupDeleteNodes_loop w nodes)
           = (case dropWhile (\<lambda>n. n \<in> Name ` set (servers w)) nodes of
                [] \<Rightarrow> None | n # ns \<Rightarrow> Some (FailedToGet n NotFound))"
  using assms
proof (induction nodes arbitrary: w)
  case Nil
  then show ?case by simp
next
  case (Cons node nodes)
  show ?case
  proof (cases "node \<in> Name ` set (servers w)")
    case False
    then show ?thesis by (simp add: Get_NotFound)
  next
    case True
    then obtain x where g: "Get w node = Inr x" using Get_found by blast
    let ?f = "\<lambda>s. if Name s = node then desire PowerStateOff s else s"
    let ?w1 = "w\<lparr>servers := map ?f (servers w),
                  events := events w @ [UpdateCall (desire PowerStateOff x)]\<rparr>"
    have u: "Update w (desire PowerStateOff x) = (?w1, None)"
      by (rule Update_by_name [OF Cons.prems g])
    have nm: "map Name (servers ?w1) = map Name (servers w)"
      by simp
    then have nms: "Name ` set (servers ?w1) = Name ` set (servers w)"
      by (metis list.set_map)
    have d: "distinct (map Name (servers ?w1))"
      using Cons.prems by simp
    have step: "NodeGroupDeleteNodes_loop w (node # nodes) = NodeGroupDeleteNodes_loop ?w1 nodes"
      using g u by (simp del: Get_name)
    let ?tw = "takeWhile (\<lambda>n. n \<in> Name ` set (servers w)) nodes"
    have comp: "map (\<lambda>s. if Name s \<in> set ?tw then desire PowerStateOff s else s) (map ?f (servers w))
                  = map (\<lambda>s. if Name s \<in> set (node # ?tw) then desire PowerStateOff s else s) (servers w)"
      by (auto simp: desire_def)
    from Cons.IH [OF d] show ?thesis
      unfolding step nms using True comp by simp
  qed
qed

lemma events_Update: "events (fst (Update w obj)) = events w @ [UpdateCall obj]"
  by (simp add: Update_def emit_def)

lemma statusUpdates_Update:
  "Update w obj = (w', e) \<Longrightarrow>
   filter isStatusUpdateCall (events w') = filter isStatusUpdateCall (events w)"
  using events_Update [of w obj] by (auto simp: isStatusUpdateCall_def)

lemma statusUpdates_increase_loop:
  "filter isStatusUpdateCall (events (fst (NodeGroupIncreaseSize_loop w delta p items)))
     = filter isStatusUpdateCall (events w)"
proof (induction items arbitrary: w p)
  case Nil
  show ?case by simp
next
  case (Cons x items)
  obtain w' e where u: "Update w (desire PowerStateOn x) = (w', e)"
    by (cases "Update w (desire PowerStateOn x)")
  show ?case
    using Cons.IH statusUpdates_Update [OF u]
    by (cases e) (simp_all add: u)
qed

lemma statusUpdates_decrease_loop:
  "filter isStatusUpdateCall (events (fst (NodeGroupDecreaseTargetSize_loop w delta p items)))
     = filter isStatusUpdateCall (events w)"
proof (induction items arbitrary: w p)
  case Nil
  show ?case by simp
next
  case (Cons x items)
  obtain w' e where u: "Update w (desire PowerStateOff x) = (w', e)"
    by (cases "Update w (desire PowerStateOff x)")
  show ?case
    using Cons.IH statusUpdates_Update [OF u]
    by (cases e) (simp_all add: u)
qed

lemma statusUpdates_delete_loop:
  "filter isStatusUpdateCall (events (fst (NodeGroupDeleteNodes_loop w nodes)))
     = filter isStatusUpdateCall (events w)"
proof (induction nodes arbitrary: w)
  case Nil
  show ?case by simp
next
  case (Cons node nodes)
  show ?case
  proof (cases "Get w node")
    case (Inl err)
    then show ?thesis by simp
  next
    case (Inr x)
    obtain w' e where u: "Update w (desire PowerStateOff x) = (w', e)"
      by (cases "Update w (desire PowerStateOff x)")
    show ?thesis
      using Cons.IH statusUpdates_Update [OF u]
      by (cases e) (simp_all add: u Inr)
  qed
qed

lemma outsidePowerState_desire [simp]: "outsidePowerState (desire p s) = outsidePowerState s"
  by (simp add: outsidePowerState_def)

lemma outsidePowerState_flipFirst:
  "map outsidePowerState (flipFirst n a b xs) = map outsidePowerState xs"
proof (induction xs arbitrary: n)
  case Nil
  show ?case by (cases n) simp_all
next
  case (Cons x xs)
  then show ?case by (cases n) simp_all
qed

lemma NodeGroupIncreaseSize_frame:
  assumes "distinct (map Name (servers w))"
  shows "map outsidePowerState (servers (fst (NodeGroupIncreaseSize w nodeGroupID delta)))
           = map outsidePowerState (servers w)
         \<and> filter isStatusUpdateCall (events (fst (NodeGroupIncreaseSize w nodeGroupID delta)))
           = filter isStatusUpdateCall (events w)"
proof -
  obtain w' res where l: "NodeGroupIncreaseSize_loop w delta 0 (servers w) = (w', res)"
    by (cases "NodeGroupIncreaseSize_loop w delta 0 (servers w)")
  from NodeGroupIncreaseSize_loop_flipFirst [of "[]" "servers w" w delta 0] assms l
  have 1: "servers w' = flipFirst (nat (delta - 0)) PowerStateOff PowerStateOn (servers w)"
    by simp
  from statusUpdates_increase_loop [of w delta 0 "servers w"] l
  have 2: "filter isStatusUpdateCall (events w') = filter isStatusUpdateCall (events w)"
    by simp
  show ?thesis
    using 1 2 l
    by (simp add: NodeGroupIncreaseSize_def List_def outsidePowerState_flipFirst
          split: sum.splits)
qed

lemma NodeGroupDecreaseTargetSize_frame:
  assumes "distinct (map Name (servers w))"
  shows "map outsidePowerState (servers (fst (NodeGroupDecreaseTargetSize w nodeGroupID delta)))
           = map outsidePowerState (servers w)
         \<and> filter isStatusUpdateCall (events (fst (NodeGroupDecreaseTargetSize w nodeGroupID delta)))
           = filter isStatusUpdateCall (events w)"
proof -
  obtain w' res where l: "NodeGroupDecreaseTargetSize_loop w delta 0 (servers w) = (w', res)"
    by (cases "NodeGroupDecreaseTargetSize_loop w delta 0 (servers w)")
  from NodeGroupDecreaseTargetSize_loop_flipFirst [of "[]" "servers w" w delta 0] assms l
  have 1: "servers w' = flipFirst (nat (delta - 0)) PowerStateOn PowerStateOff (servers w)"
    by simp
  from statusUpdates_decrease_loop [of w delta 0 "servers w"] l
  have 2: "filter isStatusUpdateCall (events w') = filter isStatusUpdateCall (events w)"
    by simp
  show ?thesis
    using 1 2 l
    by (simp add: NodeGroupDecreaseTargetSize_def List_def outsidePowerState_flipFirst
          split: sum.splits)
qed

lemma NodeGroupDeleteNodes_frame:
  assumes "distinct (map Name (servers w))"
  shows "map outsidePowerState (servers (fst (NodeGroupDeleteNodes w nodeGroupID nodes)))
           = map outsidePowerState (servers w)
         \<and> filter isStatusUpdateCall (events (fst (NodeGroupDeleteNodes w nodeGroupID nodes)))
           = filter isStatusUpdateCall (events w)"
proof -
  obtain w' res where l: "NodeGroupDeleteNodes_loop w nodes = (w', res)"
    by (cases "NodeGroupDeleteNodes_loop w nodes")
  from NodeGroupDeleteNodes_loop_takeWhile [OF assms, of nodes] l
  have 1: "servers w' = map (\<lambda>s. if Name s \<in> set (takeWhile (\<lambda>n. n \<in> Name ` set (servers w)) nodes)
                       then desire PowerStateOff s else s) (servers w)"
    by simp
  have f1: "map outsidePowerState (servers w') = map outsidePowerState (servers w)"
    unfolding 1 by (simp add: comp_def if_distrib [of outsidePowerState] cong: if_cong)
  from statusUpdates_delete_loop [of w nodes] l
  have 2: "filter isStatusUpdateCall (events w') = filter isStatusUpdateCall (events w)"
    by simp
  show ?thesis
    using f1 2 l
    by (cases res) (simp_all add: NodeGroupDeleteNodes_def)
qed

text \<open>
  C7. In a store keyed by unique names, \<open>NodeGroupDeleteNodes\<close> on the known pool goes
  through the named members in the order of the request up to the first one that is not
  stored. Every member named before that point has its desired power state off
  afterwards; every other record is as it was. If some named member is not stored the
  call fails with the error of the first such member, and what it has set to off before
  stays so. With an unknown pool the call fails and changes nothing.
\<close>

theorem C7_delete_nodes:
  assumes "distinct (map Name (servers w))"
  shows "servers (fst (NodeGroupDeleteNodes w defaultNodeGroupID nodes))
           = map (\<lambda>s. if Name s \<in> set (takeWhile (\<lambda>n. n \<in> Name ` set (servers w)) nodes)
                       then s\<lparr>Spec := (Spec s)\<lparr>PowerState := PowerStateOff\<rparr>\<rparr> else s) (servers w)
         \<and> (dropWhile (\<lambda>n. n \<in> Name ` set (servers w)) nodes = n # ns \<longrightarrow>
              snd (NodeGroupDeleteNodes w defaultNodeGroupID nodes) = Inl (FailedToGet n NotFound))
         \<and> (nodeGroupID \<noteq> defaultNodeGroupID \<longrightarrow>
              NodeGroupDeleteNodes w nodeGroupID nodes = (w, Inl (UnknownNodeGroup nodeGroupID)))"
proof -
  obtain w' res where l: "NodeGroupDeleteNodes_loop w nodes = (w', res)"
    by (cases "NodeGroupDeleteNodes_loop w nodes")
  from NodeGroupDeleteNodes_loop_takeWhile [OF assms, of nodes] l
  have 1: "servers w' = map (\<lambda>s. if Name s \<in> set (takeWhile (\<lambda>n. n \<in> Name ` set (servers w)) nodes)
                       then desire PowerStateOff s else s) (servers w)"
    and 2: "res = (case dropWhile (\<lambda>n. n \<in> Name ` set (servers w)) nodes of
                [] \<Rightarrow> None | n # ns \<Rightarrow> Some (FailedToGet n NotFound))"
    by simp_all
  have 3: "servers w' = map (\<lambda>s. if Name s \<in> set (takeWhile (\<lambda>n. n \<in> Name ` set (servers w)) nodes)
                       then s\<lparr>Spec := (Spec s)\<lparr>PowerState := PowerStateOff\<rparr>\<rparr> else s) (servers w)"
    unfolding 1 by (simp add: desire_def)
  show ?thesis
    using 3 2 l
    by (cases "dropWhile (\<lambda>n. n \<in> Name ` set (servers w)) nodes")
       (simp_all add: NodeGroupDeleteNodes_def del: dropWhile_eq_Nil_conv)
qed

theorem C7_delete_nodes_witness:
  "servers (fst (NodeGroupDeleteNodes twoServers defaultNodeGroupID [''a'', ''zz'', ''b'']))
     = map (\<lambda>s. if Name s \<in> set [''a'']
                 then s\<lparr>Spec := (Spec s)\<lparr>PowerState := PowerStateOff\<rparr>\<rparr> else s)
         (servers twoServers)
   \<and> snd (NodeGroupDeleteNodes twoServers defaultNodeGroupID [''a'', ''zz'', ''b''])
     = Inl (FailedToGet ''zz'' NotFound)
   \<and> NodeGroupDeleteNodes twoServers ''other-pool'' [''a'', ''zz'', ''b'']
     = (twoServers, Inl (UnknownNodeGroup ''other-pool''))"
proof -
  have d: "distinct (map Name (servers twoServers))"
    by (simp add: twoServers_def wolServer_def)
  have t: "takeWhile (\<lambda>n. n \<in> Name ` set (servers twoServers)) [''a'', ''zz'', ''b''] = [''a'']"
    by (simp add: twoServers_def wolServer_def)
  have dr: "dropWhile (\<lambda>n. n \<in> Name ` set (servers twoServers)) [''a'', ''zz'', ''b'']
              = [''zz'', ''b'']"
    by (simp add: twoServers_def wolServer_def)
  have ne: "''other-pool'' \<noteq> defaultNodeGroupID"
    by (simp add: const_defs)
  from C7_delete_nodes [OF d, of "[''a'', ''zz'', ''b'']" "''zz''" "[''b'']" "''other-pool''"] ne
  show ?thesis
    unfolding t dr by simp
qed

text \<open>
  A request naming a stored machine and then one that is not stored fails, and the stored
  machine, which was to be on, is to be off afterwards.
\<close>

theorem C7_delete_nodes_counterexample:
  "NodeGroupDeleteNodes twoServers defaultNodeGroupID [''a'', ''zz'']
     = (\<lparr>servers = [wolServer ''a'' PowerStateOff (phase StatusActive),
                    wolServer ''b'' PowerStateOff (phase StatusOffline)],
         events = [UpdateCall (wolServer ''a'' PowerStateOff (phase StatusActive))]\<rparr>,
        Inl (FailedToGet ''zz'' NotFound))
   \<and> servers twoServers
       = [wolServer ''a'' PowerStateOn (phase StatusActive),
          wolServer ''b'' PowerStateOff (phase StatusOffline)]
   \<and> wolServer ''a'' PowerStateOff (phase StatusActive)
       \<noteq> wolServer ''a'' PowerStateOn (phase StatusActive)"
  by code_simp

subsection \<open>The frame of both components\<close>

lemma servers_emit [simp]: "servers (emit e w) = servers w"
  by (simp add: emit_def)

lemma servers_powerOn [simp]: "servers (fst (powerOn r s w)) = servers w"
  by (simp add: powerOn_def split: option.splits)

lemma servers_powerOff [simp]: "servers (fst (powerOff r s w)) = servers w"
  by (simp add: powerOff_def split: option.splits)

lemma outsideStatus_StatusUpdate [simp]:
  "map outsideStatus (servers (fst (StatusUpdate w obj))) = map outsideStatus (servers w)"
  by (auto simp: StatusUpdate_def outsideStatus_def emit_def)

lemma updates_emit [simp]:
  "\<not> isUpdateCall e \<Longrightarrow> filter isUpdateCall (events (emit e w)) = filter isUpdateCall (events w)"
  by (simp add: emit_def)

lemma updates_StatusUpdate [simp]:
  "filter isUpdateCall (events (fst (StatusUpdate w obj))) = filter isUpdateCall (events w)"
  by (simp add: StatusUpdate_def emit_def isUpdateCall_def)

lemma updates_powerOn [simp]:
  "filter isUpdateCall (events (fst (powerOn r s w))) = filter isUpdateCall (events w)"
  by (simp add: powerOn_def emit_def isUpdateCall_def split: option.splits)

lemma updates_powerOff [simp]:
  "filter isUpdateCall (events (fst (powerOff r s w))) = filter isUpdateCall (events w)"
  by (simp add: powerOff_def emit_def isUpdateCall_def split: option.splits)

lemma Reconcile_action_frame:
  "map outsideStatus (servers (fst (Reconcile_action r w server))) = map outsideStatus (servers w)
   \<and> filter isUpdateCall (events (fst (Reconcile_action r w server)))
       = filter isUpdateCall (events w)"
proof -
  obtain w1 e1 where on: "powerOn r server w = (w1, e1)" by (cases "powerOn r server w")
  obtain w2 e2 where off: "powerOff r server w = (w2, e2)" by (cases "powerOff r server w")
  have 1: "servers w1 = servers w" "filter isUpdateCall (events w1) = filter isUpdateCall (events w)"
    using servers_powerOn [of r server w] updates_powerOn [of r server w] on by simp_all
  have 2: "servers w2 = servers w" "filter isUpdateCall (events w2) = filter isUpdateCall (events w)"
    using servers_powerOff [of r server w] updates_powerOff [of r server w] off by simp_all
  show ?thesis
    using 1 2 by (cases e1; cases e2) (simp_all add: Reconcile_action_def Let_def on off)
qed

lemma Reconcile_frame:
  "map outsideStatus (servers (fst (Reconcile r now w name))) = map outsideStatus (servers w)
   \<and> filter isUpdateCall (events (fst (Reconcile r now w name))) = filter isUpdateCall (events w)"
proof -
  have p: "\<not> isUpdateCall (IsReachableCall a)" for a
    by (simp add: isUpdateCall_def)
  show ?thesis
    by (simp add: Reconcile_def Let_def Reconcile_action_frame p split: sum.splits)
qed

text \<open>
  C3. In a store keyed by unique names: \<open>Reconcile\<close> leaves the name and the spec of
  every stored record as they were and requests no \<open>Update\<close> of the main resource, only
  status updates; \<open>NodeGroupIncreaseSize\<close>, \<open>NodeGroupDecreaseTargetSize\<close> and
  \<open>NodeGroupDeleteNodes\<close> leave the name, the control type and parameters and the status
  of every stored record as they were and request no status update.
\<close>

theorem C3_frame:
  assumes "distinct (map Name (servers w))"
  shows "map outsideStatus (servers (fst (Reconcile r now w name))) = map outsideStatus (servers w)
         \<and> filter isUpdateCall (events (fst (Reconcile r now w name)))
             = filter isUpdateCall (events w)
         \<and> map outsidePowerState (servers (fst (NodeGroupIncreaseSize w nodeGroupID delta)))
             = map outsidePowerState (servers w)
         \<and> filter isStatusUpdateCall (events (fst (NodeGroupIncreaseSize w nodeGroupID delta)))
             = filter isStatusUpdateCall (events w)
         \<and> map outsidePowerState (servers (fst (NodeGroupDecreaseTargetSize w nodeGroupID delta)))
             = map outsidePowerState (servers w)
         \<and> filter isStatusUpdateCall (events (fst (NodeGroupDecreaseTargetSize w nodeGroupID delta)))
             = filter isStatusUpdateCall (events w)
         \<and> map outsidePowerState (servers (fst (NodeGroupDeleteNodes w nodeGroupID nodes)))
             = map outsidePowerState (servers w)
         \<and> filter isStatusUpdateCall (events (fst (NodeGroupDeleteNodes w nodeGroupID nodes)))
             = filter isStatusUpdateCall (events w)"
  using Reconcile_frame [of r now w name]
    NodeGroupIncreaseSize_frame [OF assms, of nodeGroupID delta]
    NodeGroupDecreaseTargetSize_frame [OF assms, of nodeGroupID delta]
    NodeGroupDeleteNodes_frame [OF assms, of nodeGroupID nodes]
  by blast

lemma distinct_twoServers: "distinct (map Name (servers twoServers))"
  by (simp add: twoServers_def wolServer_def)

theorem C3_frame_witness:
  "map outsideStatus (servers (fst (Reconcile (mockReconciler False) 1 twoServers ''a'')))
     = map outsideStatus (servers twoServers)
   \<and> filter isUpdateCall (events (fst (Reconcile (mockReconciler False) 1 twoServers ''a'')))
     = filter isUpdateCall (events twoServers)
   \<and> map outsidePowerState (servers (fst (NodeGroupIncreaseSize twoServers defaultNodeGroupID 1)))
     = map outsidePowerState (servers twoServers)
   \<and> filter isStatusUpdateCall (events (fst (NodeGroupIncreaseSize twoServers defaultNodeGroupID 1)))
     = filter isStatusUpdateCall (events twoServers)
   \<and> map outsidePowerState
        (servers (fst (NodeGroupDecreaseTargetSize twoServers defaultNodeGroupID 1)))
     = map outsidePowerState (servers twoServers)
   \<and> filter isStatusUpdateCall
        (events (fst (NodeGroupDecreaseTargetSize twoServers defaultNodeGroupID 1)))
     = filter isStatusUpdateCall (events twoServers)
   \<and> map outsidePowerState
        (servers (fst (NodeGroupDeleteNodes twoServers defaultNodeGroupID [''a''])))
     = map outsidePowerState (servers twoServers)
   \<and> filter isStatusUpdateCall
        (events (fst (NodeGroupDeleteNodes twoServers defaultNodeGroupID [''a''])))
     = filter isStatusUpdateCall (events twoServers)"
  by (rule C3_frame [OF distinct_twoServers])

end
